theory Spec2Isabelle
  imports Main "HOL-Library.Word"
begin

section \<open>The AST of sqlparser/ast.go\<close>

text \<open>
  Go's \<open>[]byte\<close> and \<open>string\<close> are byte sequences: \<open>string\<close> (a \<open>char list\<close>) here.
  A \<open>[]byte\<close> or pointer field that the code compares with \<open>nil\<close> is an \<open>option\<close>
  (\<open>None\<close> is \<open>nil\<close>; \<open>Some []\<close> is an empty, non-nil slice).
\<close>

type_synonym bytes = string

text \<open>
  \<open>SelectStatement\<close> (the field of \<open>Subquery\<close>) is declared in another file of the
  package; only its \<open>Format\<close> method is used here.
\<close>

typedecl SelectStatement

datatype ColName = ColName bytes "bytes option"

datatype TableName = TableName bytes "bytes option"

datatype Subquery = Subquery SelectStatement

text \<open>
  The interfaces \<open>Expr\<close>, \<open>BoolExpr\<close> and \<open>ValExpr\<close> are one datatype of all the
  variants that implement \<open>IExpr\<close>; a field of interface type that the code tests
  against \<open>nil\<close> is an \<open>option\<close>. \<open>LikeExpr\<close> and \<open>WhereExpr\<close> guard a \<open>nil\<close>
  receiver, so these two carry the pointer: \<open>LikeExpr None\<close> is a \<open>nil *LikeExpr\<close>
  and \<open>LikeExpr (Some e)\<close> is \<open>&LikeExpr{Expr: e}\<close>.
\<close>

datatype Expr =
    AndExpr Expr Expr
  | OrExpr Expr Expr
  | NotExpr Expr
  | ParenBoolExpr Expr
  | ComparisonExpr string Expr Expr
  | RangeCond string Expr Expr Expr
  | NullCheck string Expr
  | ExistsExpr Subquery
  | StrVal bytes
  | NumVal bytes
  | ValArg bytes
  | NullVal
  | ColNameExpr ColName
  | ValTuple "Expr list"
  | SubqueryExpr Subquery
  | BinaryExpr char Expr Expr
  | UnaryExpr char Expr
  | FuncExpr bytes bool "Expr list"
  | CaseExpr "Expr option" "When list" "Expr option"
  | LikeExpr "Expr option"
  | WhereExpr "Expr option"
and When = When Expr Expr

record Limit =
  Offset :: "Expr option"
  Rowcount :: "Expr option"

section \<open>strconv.ParseInt and strconv.FormatInt at base 10, 64 bits\<close>

datatype convErr = ErrSyntax | ErrRange

text \<open>
  Go's \<open>error\<close> values met here: \<open>errors.New text\<close> and strconv's
  \<open>&NumError{Func, Num, Err}\<close>.
\<close>

datatype error = ErrorString string | NumError string string convErr

text \<open>strconv's \<open>lower\<close>: the byte with bit \<open>0x20\<close> set.\<close>

definition lower :: "char \<Rightarrow> nat" where
  "lower c = or (of_char c) 32"

text \<open>
  The digit loop of \<open>ParseUint\<close> with \<open>base = 10\<close>, \<open>bitSize = 64\<close>. \<open>digit_of\<close> is the
  switch that reads a byte as a digit or a letter (the underscore is neither, since
  \<open>base \<noteq> 0\<close>); a byte that is no digit below the base is a syntax error; \<open>n \<ge> cutoff\<close>
  or a wrapping \<open>n + d\<close> is a range error, reported at once.
\<close>

definition cutoff10 :: "64 word" where
  "cutoff10 = 1844674407370955162"

definition digit_of :: "char \<Rightarrow> nat option" where
  "digit_of c =
     (if 48 \<le> (of_char c :: nat) \<and> (of_char c :: nat) \<le> 57 then Some (of_char c - 48)
      else if 97 \<le> lower c \<and> lower c \<le> 122 then Some (lower c - 97 + 10)
      else None)"

fun ParseUint_loop :: "bytes \<Rightarrow> 64 word \<Rightarrow> convErr + 64 word" where
  "ParseUint_loop [] n = Inr n"
| "ParseUint_loop (c # s) n =
     (case digit_of c of
        None \<Rightarrow> Inl ErrSyntax
      | Some d \<Rightarrow>
          if d \<ge> 10 then Inl ErrSyntax
          else if n \<ge> cutoff10 then Inl ErrRange
          else let n1 = n * 10 + of_nat d
               in if n1 < n * 10 then Inl ErrRange else ParseUint_loop s n1)"

definition ParseUint :: "bytes \<Rightarrow> convErr + 64 word" where
  "ParseUint s = (if s = [] then Inl ErrSyntax else ParseUint_loop s 0)"

text \<open>
  \<open>ParseInt s 10 64\<close>: the value and the error, as Go returns them. The value is an
  \<open>int64\<close> in two's complement.
\<close>

definition ParseInt :: "bytes \<Rightarrow> 64 word \<times> error option" where
  "ParseInt s0 =
     (if s0 = [] then (0, Some (NumError ''ParseInt'' s0 ErrSyntax))
      else
        let neg = (hd s0 = CHR ''-'');
            s = (if hd s0 = CHR ''+'' \<or> hd s0 = CHR ''-'' then tl s0 else s0);
            cutoff = (2 ^ 63 :: 64 word)
        in case ParseUint s of
             Inl ErrSyntax \<Rightarrow> (0, Some (NumError ''ParseInt'' s0 ErrSyntax))
           | Inl ErrRange \<Rightarrow>
               (if neg then (- cutoff, Some (NumError ''ParseInt'' s0 ErrRange))
                else (cutoff - 1, Some (NumError ''ParseInt'' s0 ErrRange)))
           | Inr un \<Rightarrow>
               if \<not> neg \<and> un \<ge> cutoff
                 then (cutoff - 1, Some (NumError ''ParseInt'' s0 ErrRange))
               else if neg \<and> un > cutoff
                 then (- cutoff, Some (NumError ''ParseInt'' s0 ErrRange))
               else (if neg then - un else un, None))"

text \<open>
  \<open>FormatInt i 10\<close>: the sign, then the decimal digits of the magnitude taken as a
  \<open>uint64\<close>, each digit read from the digit string.
\<close>

fun formatBits :: "nat \<Rightarrow> string" where
  "formatBits u =
     (if u < 10 then [''0123456789'' ! u]
      else formatBits (u div 10) @ [''0123456789'' ! (u mod 10)])"

definition FormatInt :: "64 word \<Rightarrow> string" where
  "FormatInt i =
     (if i <s 0 then CHR ''-'' # formatBits (unat (- i)) else formatBits (unat i))"

text \<open>
  What a base-10 text of a signed 64-bit integer is, to state which inputs \<open>ParseInt\<close>
  accepts: an optional sign, then one or more of the digits \<open>0\<close> to \<open>9\<close>, read in
  Horner form, with a value from \<open>-2^63\<close> to \<open>2^63 - 1\<close>.
\<close>

definition isDecimalDigit :: "char \<Rightarrow> bool" where
  "isDecimalDigit c = (48 \<le> (of_char c :: nat) \<and> (of_char c :: nat) \<le> 57)"

fun decimal_value :: "string \<Rightarrow> nat \<Rightarrow> nat" where
  "decimal_value [] n = n"
| "decimal_value (c # s) n = decimal_value s (10 * n + (of_char c - 48))"

definition int64_text :: "string \<Rightarrow> int option" where
  "int64_text s0 =
     (if s0 = [] then None
      else
        let neg = (hd s0 = CHR ''-'');
            s = (if hd s0 = CHR ''+'' \<or> hd s0 = CHR ''-'' then tl s0 else s0)
        in if s = [] \<or> \<not> list_all isDecimalDigit s then None
           else let i = (if neg then - int (decimal_value s 0) else int (decimal_value s 0))
                in if - (2 ^ 63) \<le> i \<and> i < 2 ^ 63 then Some i else None)"

text \<open>
  The canonical form of such a text, the one a value has only once: a minus sign for a
  negative value and no sign otherwise, and no leading zero (so \<open>0\<close> is written \<open>0\<close>).
\<close>

definition canonical_decimal :: "string \<Rightarrow> bool" where
  "canonical_decimal t =
     (let ds = (if t \<noteq> [] \<and> hd t = CHR ''-'' then tl t else t)
      in ds \<noteq> [] \<and> list_all isDecimalDigit ds \<and> (hd ds \<noteq> CHR ''0'' \<or> t = ''0''))"

text \<open>An integer wrapped around to 64 bits in two's complement.\<close>

definition wrap64 :: "int \<Rightarrow> int" where
  "wrap64 n = (n + 2 ^ 63) mod 2 ^ 64 - 2 ^ 63"

section \<open>Limit.RewriteLimit\<close>

text \<open>
  \<open>RewriteLimit\<close> takes and returns \<open>*Limit\<close> and allocates with \<open>new\<close>, so the
  \<open>Limit\<close> nodes live in a store: \<open>cells\<close> maps an address to its node, and the
  addresses below \<open>next_addr\<close> are the allocated ones. \<open>None\<close> is the \<open>nil\<close> pointer.
\<close>

type_synonym addr = nat

record heap =
  cells :: "addr \<Rightarrow> Limit"
  next_addr :: addr

definition new_Limit :: "heap \<Rightarrow> addr \<times> heap" where
  "new_Limit h =
     (next_addr h,
      \<lparr>cells = fun_upd (cells h) (next_addr h) \<lparr>Offset = None, Rowcount = None\<rparr>,
       next_addr = Suc (next_addr h)\<rparr>)"

text \<open>The type assertion \<open>x.(NumVal)\<close> in its comma-ok form; a \<open>nil\<close> interface fails it.\<close>

fun assert_NumVal :: "Expr option \<Rightarrow> bytes option" where
  "assert_NumVal (Some (NumVal b)) = Some b"
| "assert_NumVal _ = None"

definition RewriteLimit ::
  "addr option \<Rightarrow> heap \<Rightarrow> (addr option \<times> error option) \<times> heap" where
  "RewriteLimit node h =
     (case node of
        None \<Rightarrow> ((None, None), h)
      | Some p \<Rightarrow>
          (let (newLimit, h1) = new_Limit h;
               offset_r =
                 (if Offset (cells h1 p) = None then Inr 0
                  else (case assert_NumVal (Offset (cells h1 p)) of
                          None \<Rightarrow> Inl (ErrorString ''Limit.offset is not number'')
                        | Some o1 \<Rightarrow>
                            (case ParseInt o1 of
                               (v, None) \<Rightarrow> Inr v
                             | (v, Some err) \<Rightarrow> Inl err)))
           in (case offset_r of
                 Inl err \<Rightarrow> ((None, Some err), h1)
               | Inr offset \<Rightarrow>
                   (case assert_NumVal (Rowcount (cells h1 p)) of
                      None \<Rightarrow>
                        ((None, Some (ErrorString ''Limit.RowCount is not number'')), h1)
                    | Some r \<Rightarrow>
                        (case ParseInt r of
                           (v, Some err) \<Rightarrow> ((None, Some err), h1)
                         | (count, None) \<Rightarrow>
                             (let allRowCount = FormatInt (offset + count)
                              in ((Some newLimit, None),
                                  h1\<lparr>cells :=
                                       fun_upd (cells h1) newLimit
                                         ((cells h1 newLimit)
                                            \<lparr>Rowcount := Some (NumVal allRowCount)\<rparr>)\<rparr>)))))))"

text \<open>A store with one node at address 0, for concrete runs.\<close>

definition heap_of :: "Limit \<Rightarrow> heap" where
  "heap_of l = \<lparr>cells = (\<lambda>_. l), next_addr = 1\<rparr>"

section \<open>The output buffer and the services the serializer calls\<close>

text \<open>A run-time panic of the Go code: a slice bound out of range, or a \<open>nil\<close> node.\<close>

datatype panic = SliceBounds | NilNode

text \<open>
  Modelled from the spec: \<open>TrackedBuffer\<close> and its methods \<open>Fprintf\<close> and \<open>WriteArg\<close>
  are in another file of the package. The spec (4.2, 6) gives an append-only output
  buffer of text and, beside the text, the ordered list of the bind-variable names
  written through the argument sink.
\<close>

record TrackedBuffer =
  out :: string
  bindVars :: "string list"

definition NewTrackedBuffer :: TrackedBuffer where
  "NewTrackedBuffer = \<lparr>out = [], bindVars = []\<rparr>"

definition WriteString :: "string \<Rightarrow> TrackedBuffer \<Rightarrow> TrackedBuffer" where
  "WriteString s buf = buf\<lparr>out := out buf @ s\<rparr>"

text \<open>
  A method that writes into the buffer it is given, or panics: every \<open>Format\<close> is one.
\<close>

type_synonym formatter = "TrackedBuffer \<Rightarrow> panic + TrackedBuffer"

definition andThen :: "panic + 'a \<Rightarrow> ('a \<Rightarrow> panic + 'b) \<Rightarrow> panic + 'b" where
  "andThen r f = (case r of Inl p \<Rightarrow> Inl p | Inr x \<Rightarrow> f x)"

text \<open>Two statements on the same buffer, one after the other; and the empty statement.\<close>

definition seq :: "formatter \<Rightarrow> formatter \<Rightarrow> formatter" where
  "seq f g buf = andThen (f buf) g"

definition skip :: formatter where
  "skip buf = Inr buf"

text \<open>
  Modelled from the spec: a call \<open>buf.Fprintf(template, args...)\<close> is the list of the
  template's pieces in order, each with its argument: literal text, a \<open>%s\<close> with its bytes,
  a \<open>%c\<close> with its byte, and a \<open>%v\<close> with the \<open>Format\<close> of its node. The spec (4.2): a
  node renders a fixed literal template interleaved with the rendered text of its
  children, in a fixed child order. A \<open>%v\<close> whose argument is a \<open>nil\<close> interface has no
  \<open>Format\<close> to call: \<open>nil_node\<close>.
\<close>

datatype piece = Lit string | Str bytes | Chr char | Node formatter

fun Fprintf :: "piece list \<Rightarrow> formatter" where
  "Fprintf [] buf = Inr buf"
| "Fprintf (Lit s # ps) buf = Fprintf ps (WriteString s buf)"
| "Fprintf (Str s # ps) buf = Fprintf ps (WriteString s buf)"
| "Fprintf (Chr c # ps) buf = Fprintf ps (WriteString [c] buf)"
| "Fprintf (Node f # ps) buf = andThen (f buf) (Fprintf ps)"

definition nil_node :: formatter where
  "nil_node buf = Inl NilNode"

text \<open>
  What the package takes from outside this file: the keyword table \<open>keywords\<close> (only
  membership is asked of it), the literal encoder \<open>EncodeSQL\<close> of sqltypes, the text
  that the argument sink puts into the output for a placeholder name, and the \<open>Format\<close>
  method of the select statements.
\<close>

record env =
  keywords_table :: "string set"
  EncodeSQL :: "bytes \<Rightarrow> string"
  argText :: "string \<Rightarrow> string"
  SelectFormat :: "SelectStatement \<Rightarrow> formatter"

text \<open>
  Modelled from the spec: \<open>WriteArg\<close> records the name as a placeholder: the name joins
  the ordered bind-variable list and the placeholder's text joins the output.
\<close>

definition WriteArg :: "env \<Rightarrow> string \<Rightarrow> TrackedBuffer \<Rightarrow> TrackedBuffer" where
  "WriteArg env arg buf =
     buf\<lparr>out := out buf @ argText env arg, bindVars := bindVars buf @ [arg]\<rparr>"

text \<open>
  Modelled from the spec: \<open>isLetter\<close> and \<open>isDigit\<close> are in the tokenizer's file. The
  spec (4.2) gives the ASCII class \<open>[A-Za-z0-9_]\<close>: letters and the underscore, and the
  digits. The argument is the byte as a \<open>uint16\<close>.
\<close>

definition isLetter :: "nat \<Rightarrow> bool" where
  "isLetter ch = (97 \<le> ch \<and> ch \<le> 122 \<or> 65 \<le> ch \<and> ch \<le> 90 \<or> ch = 95)"

definition isDigit :: "nat \<Rightarrow> bool" where
  "isDigit ch = (48 \<le> ch \<and> ch \<le> 57)"

section \<open>escape and the Format methods\<close>

fun needQuota_loop :: "bytes \<Rightarrow> bool" where
  "needQuota_loop [] = False"
| "needQuota_loop (ch # name) =
     (if \<not> isLetter (of_char ch) \<and> \<not> isDigit (of_char ch) then True
      else needQuota_loop name)"

definition escape :: "env \<Rightarrow> bytes \<Rightarrow> formatter" where
  "escape env name =
     (if name \<in> keywords_table env then Fprintf [Lit ''`'', Str name, Lit ''`'']
      else if needQuota_loop name then Fprintf [Lit ''`'', Str name, Lit ''`'']
      else Fprintf [Str name])"

fun Format_ColName :: "env \<Rightarrow> ColName \<Rightarrow> formatter" where
  "Format_ColName env (ColName name qualifier) =
     seq (case qualifier of
            None \<Rightarrow> skip
          | Some q \<Rightarrow> seq (escape env q) (Fprintf [Lit ''.'']))
       (escape env name)"

fun Format_TableName :: "env \<Rightarrow> TableName \<Rightarrow> formatter" where
  "Format_TableName env (TableName name qualifier) =
     seq (case qualifier of
            None \<Rightarrow> skip
          | Some q \<Rightarrow> seq (escape env q) (Fprintf [Lit ''.'']))
       (escape env name)"

fun Format_Subquery :: "env \<Rightarrow> Subquery \<Rightarrow> formatter" where
  "Format_Subquery env (Subquery sel) = Fprintf [Lit ''('', Node (SelectFormat env sel), Lit '')'']"

text \<open>
  \<open>ValExprs_loop\<close> is the loop of \<open>ValExprs.Format\<close> with its \<open>prefix\<close> variable, and
  \<open>Whens_loop\<close> the loop over \<open>node.Whens\<close> in \<open>CaseExpr.Format\<close>. \<open>ValArg.Format\<close>
  slices \<open>node[1:]\<close>, which panics on an empty slice.
\<close>

fun Format_Expr :: "env \<Rightarrow> Expr \<Rightarrow> formatter"
  and ValExprs_loop :: "env \<Rightarrow> string \<Rightarrow> Expr list \<Rightarrow> formatter"
  and Whens_loop :: "env \<Rightarrow> When list \<Rightarrow> formatter"
  and Format_When :: "env \<Rightarrow> When \<Rightarrow> formatter"
where
  "Format_Expr env (AndExpr l r) =
     Fprintf [Node (Format_Expr env l), Lit '' and '', Node (Format_Expr env r)]"
| "Format_Expr env (OrExpr l r) =
     Fprintf [Node (Format_Expr env l), Lit '' or '', Node (Format_Expr env r)]"
| "Format_Expr env (NotExpr e) = Fprintf [Lit ''not '', Node (Format_Expr env e)]"
| "Format_Expr env (ParenBoolExpr e) = Fprintf [Lit ''('', Node (Format_Expr env e), Lit '')'']"
| "Format_Expr env (ComparisonExpr operator l r) =
     Fprintf [Node (Format_Expr env l), Lit '' '', Str operator, Lit '' '',
              Node (Format_Expr env r)]"
| "Format_Expr env (RangeCond operator l from to) =
     Fprintf [Node (Format_Expr env l), Lit '' '', Str operator, Lit '' '',
              Node (Format_Expr env from), Lit '' and '', Node (Format_Expr env to)]"
| "Format_Expr env (NullCheck operator e) =
     Fprintf [Node (Format_Expr env e), Lit '' '', Str operator]"
| "Format_Expr env (ExistsExpr sq) = Fprintf [Lit ''exists '', Node (Format_Subquery env sq)]"
| "Format_Expr env (StrVal s) = (\<lambda>buf. Inr (WriteString (EncodeSQL env s) buf))"
| "Format_Expr env (NumVal s) = Fprintf [Str s]"
| "Format_Expr env (ValArg s) =
     (\<lambda>buf. if s = [] then Inl SliceBounds else Inr (WriteArg env (tl s) buf))"
| "Format_Expr env NullVal = Fprintf [Lit ''null'']"
| "Format_Expr env (ColNameExpr c) = Format_ColName env c"
| "Format_Expr env (ValTuple exprs) =
     Fprintf [Lit ''('', Node (ValExprs_loop env [] exprs), Lit '')'']"
| "Format_Expr env (SubqueryExpr sq) = Format_Subquery env sq"
| "Format_Expr env (BinaryExpr operator l r) =
     Fprintf [Node (Format_Expr env l), Chr operator, Node (Format_Expr env r)]"
| "Format_Expr env (UnaryExpr operator e) = Fprintf [Chr operator, Node (Format_Expr env e)]"
| "Format_Expr env (FuncExpr name isDistinct exprs) =
     Fprintf [Str name, Lit ''('', Str (if isDistinct then ''distinct '' else []),
              Node (ValExprs_loop env [] exprs), Lit '')'']"
| "Format_Expr env (CaseExpr expr whens els) =
     seq (Fprintf [Lit ''case ''])
       (seq (case expr of
               None \<Rightarrow> skip
             | Some e \<Rightarrow> Fprintf [Node (Format_Expr env e), Lit '' ''])
          (seq (Whens_loop env whens)
             (seq (case els of
                     None \<Rightarrow> skip
                   | Some e \<Rightarrow> Fprintf [Lit ''else '', Node (Format_Expr env e), Lit '' ''])
                (Fprintf [Lit ''end'']))))"
| "Format_Expr env (LikeExpr node) =
     (case node of
        None \<Rightarrow> skip
      | Some e \<Rightarrow> Fprintf [Lit '' like '', Node (Format_Expr env e)])"
| "Format_Expr env (WhereExpr node) =
     (case node of
        None \<Rightarrow> skip
      | Some e \<Rightarrow> Fprintf [Lit '' where '', Node (Format_Expr env e)])"
| "ValExprs_loop env prefix [] = skip"
| "ValExprs_loop env prefix (n # ns) =
     seq (Fprintf [Str prefix, Node (Format_Expr env n)]) (ValExprs_loop env '', '' ns)"
| "Whens_loop env [] = skip"
| "Whens_loop env (w # ws) =
     seq (Fprintf [Node (Format_When env w), Lit '' '']) (Whens_loop env ws)"
| "Format_When env (When cond val) =
     Fprintf [Lit ''when '', Node (Format_Expr env cond), Lit '' then '',
              Node (Format_Expr env val)]"

text \<open>
  The loop shared by the list nodes: \<open>prefix\<close> is written before the first element
  and \<open>sep\<close>, which the loop body assigns to \<open>prefix\<close>, before every later one.
\<close>

fun range_loop :: "('a \<Rightarrow> formatter) \<Rightarrow> string \<Rightarrow> string \<Rightarrow> 'a list \<Rightarrow> formatter" where
  "range_loop f prefix sep [] = skip"
| "range_loop f prefix sep (n # ns) =
     seq (Fprintf [Str prefix, Node (f n)]) (range_loop f sep sep ns)"

definition Format_ValExprs :: "env \<Rightarrow> Expr list \<Rightarrow> formatter" where
  "Format_ValExprs env node = ValExprs_loop env [] node"

datatype SelectExpr = StarExpr "bytes option" | NonStarExpr Expr "bytes option"

fun Format_SelectExpr :: "env \<Rightarrow> SelectExpr \<Rightarrow> formatter" where
  "Format_SelectExpr env (StarExpr tableName) =
     seq (case tableName of None \<Rightarrow> skip | Some t \<Rightarrow> Fprintf [Str t, Lit ''.''])
       (Fprintf [Lit ''*''])"
| "Format_SelectExpr env (NonStarExpr expr as) =
     seq (Fprintf [Node (Format_Expr env expr)])
       (case as of None \<Rightarrow> skip | Some a \<Rightarrow> Fprintf [Lit '' as '', Str a])"

definition Format_SelectExprs :: "env \<Rightarrow> SelectExpr list \<Rightarrow> formatter" where
  "Format_SelectExprs env node = range_loop (Format_SelectExpr env) [] '', '' node"

definition Format_Columns :: "env \<Rightarrow> SelectExpr list option \<Rightarrow> formatter" where
  "Format_Columns env node =
     (case node of
        None \<Rightarrow> skip
      | Some cols \<Rightarrow> Fprintf [Lit ''('', Node (Format_SelectExprs env cols), Lit '')''])"

fun Format_Comments :: "bytes list \<Rightarrow> formatter" where
  "Format_Comments [] = skip"
| "Format_Comments (c # node) = seq (Fprintf [Str c, Lit '' '']) (Format_Comments node)"

datatype SimpleTableExpr = TableNameExpr TableName | SubqueryTable Subquery

fun Format_SimpleTableExpr :: "env \<Rightarrow> SimpleTableExpr \<Rightarrow> formatter" where
  "Format_SimpleTableExpr env (TableNameExpr t) = Format_TableName env t"
| "Format_SimpleTableExpr env (SubqueryTable sq) = Format_Subquery env sq"

datatype IndexHints = IndexHints string "bytes list"

fun Format_IndexHints :: "IndexHints \<Rightarrow> formatter" where
  "Format_IndexHints (IndexHints type indexes) =
     seq (Fprintf [Lit '' '', Str type, Lit '' index ''])
       (seq (range_loop (\<lambda>n. Fprintf [Str n]) ''('' '', '' indexes)
          (Fprintf [Lit '')'']))"

datatype TableExpr =
    AliasedTableExpr SimpleTableExpr "bytes option" "IndexHints option"
  | ParenTableExpr TableExpr
  | JoinTableExpr TableExpr string TableExpr "Expr option"

fun Format_TableExpr :: "env \<Rightarrow> TableExpr \<Rightarrow> formatter" where
  "Format_TableExpr env (AliasedTableExpr expr as hints) =
     seq (Fprintf [Node (Format_SimpleTableExpr env expr)])
       (seq (case as of None \<Rightarrow> skip | Some a \<Rightarrow> Fprintf [Lit '' as '', Str a])
          (case hints of None \<Rightarrow> skip | Some h \<Rightarrow> Fprintf [Node (Format_IndexHints h)]))"
| "Format_TableExpr env (ParenTableExpr expr) =
     Fprintf [Lit ''('', Node (Format_TableExpr env expr), Lit '')'']"
| "Format_TableExpr env (JoinTableExpr leftExpr join rightExpr on) =
     seq (Fprintf [Node (Format_TableExpr env leftExpr), Lit '' '', Str join, Lit '' '',
                   Node (Format_TableExpr env rightExpr)])
       (case on of None \<Rightarrow> skip | Some e \<Rightarrow> Fprintf [Lit '' on '', Node (Format_Expr env e)])"

definition Format_TableExprs :: "env \<Rightarrow> TableExpr list \<Rightarrow> formatter" where
  "Format_TableExprs env node = range_loop (Format_TableExpr env) [] '', '' node"

text \<open>\<open>*Where\<close>: \<open>None\<close> is the \<open>nil\<close> pointer.\<close>

datatype Where = Where string Expr

definition AST_WHERE :: string where
  "AST_WHERE = ''where''"

definition AST_HAVING :: string where
  "AST_HAVING = ''having''"

definition NewWhere :: "string \<Rightarrow> Expr option \<Rightarrow> Where option" where
  "NewWhere typ expr = (case expr of None \<Rightarrow> None | Some e \<Rightarrow> Some (Where typ e))"

fun Format_Where :: "env \<Rightarrow> Where option \<Rightarrow> formatter" where
  "Format_Where env None = skip"
| "Format_Where env (Some (Where type expr)) =
     Fprintf [Lit '' '', Str type, Lit '' '', Node (Format_Expr env expr)]"

definition Format_ColNames :: "env \<Rightarrow> ColName list \<Rightarrow> formatter" where
  "Format_ColNames env node = range_loop (Format_ColName env) [] '','' node"

definition Format_Values :: "env \<Rightarrow> Expr list \<Rightarrow> formatter" where
  "Format_Values env node = range_loop (Format_Expr env) ''values '' '', '' node"

definition Format_GroupBy :: "env \<Rightarrow> Expr list \<Rightarrow> formatter" where
  "Format_GroupBy env node = range_loop (Format_Expr env) '' group by '' '', '' node"

datatype Order = Order Expr string

fun Format_Order :: "env \<Rightarrow> Order \<Rightarrow> formatter" where
  "Format_Order env (Order expr direction) =
     Fprintf [Node (Format_Expr env expr), Lit '' '', Str direction]"

definition Format_OrderBy :: "env \<Rightarrow> Order list \<Rightarrow> formatter" where
  "Format_OrderBy env node = range_loop (Format_Order env) '' order by '' '', '' node"

text \<open>
  \<open>Limit.Format\<close> on a \<open>*Limit\<close>; \<open>Rowcount\<close> is given to \<open>%v\<close> as it is, \<open>nil\<close> or not.
\<close>

definition Format_Limit :: "env \<Rightarrow> Limit option \<Rightarrow> formatter" where
  "Format_Limit env node =
     (case node of
        None \<Rightarrow> skip
      | Some l \<Rightarrow>
          seq (Fprintf [Lit '' limit ''])
            (seq (case Offset l of
                    None \<Rightarrow> skip
                  | Some e \<Rightarrow> Fprintf [Node (Format_Expr env e), Lit '', ''])
               (Fprintf [Node (case Rowcount l of
                                 None \<Rightarrow> nil_node
                               | Some e \<Rightarrow> Format_Expr env e)])))"

datatype UpdateExpr = UpdateExpr ColName Expr

fun Format_UpdateExpr :: "env \<Rightarrow> UpdateExpr \<Rightarrow> formatter" where
  "Format_UpdateExpr env (UpdateExpr name expr) =
     Fprintf [Node (Format_ColName env name), Lit '' = '', Node (Format_Expr env expr)]"

definition Format_UpdateExprs :: "env \<Rightarrow> UpdateExpr list \<Rightarrow> formatter" where
  "Format_UpdateExprs env node = range_loop (Format_UpdateExpr env) [] '', '' node"

datatype SpaceSplitExpr = SpaceSplitExpr string bytes

fun Format_SpaceSplitExpr :: "SpaceSplitExpr \<Rightarrow> formatter" where
  "Format_SpaceSplitExpr (SpaceSplitExpr name expr) = Fprintf [Str name, Lit '' '', Str expr]"

definition Format_SpaceSplitExprs :: "SpaceSplitExpr list \<Rightarrow> formatter" where
  "Format_SpaceSplitExprs node = range_loop Format_SpaceSplitExpr [] '' '' node"

text \<open>\<open>OnDup\<close> is a slice type: \<open>None\<close> is the \<open>nil\<close> slice.\<close>

definition Format_OnDup :: "env \<Rightarrow> UpdateExpr list option \<Rightarrow> formatter" where
  "Format_OnDup env node =
     (case node of
        None \<Rightarrow> skip
      | Some exprs \<Rightarrow>
          Fprintf [Lit '' on duplicate key update '', Node (Format_UpdateExprs env exprs)])"

text \<open>\<open>String\<close>: the text a node's \<open>Format\<close> writes into a new buffer.\<close>

definition String :: "formatter \<Rightarrow> panic + string" where
  "String format = (case format NewTrackedBuffer of Inl p \<Rightarrow> Inl p | Inr b \<Rightarrow> Inr (out b))"

text \<open>The decimal text of an integer: a minus sign for a negative one, then its digits.\<close>

definition decimal :: "int \<Rightarrow> string" where
  "decimal i = (if i < 0 then CHR ''-'' # formatBits (nat (- i)) else formatBits (nat i))"

section \<open>Validly constructed trees\<close>

text \<open>
  What rendering relies on and does not check: a \<open>ValArg\<close> holds at least its marker
  byte, a \<open>Limit\<close> has a \<open>Rowcount\<close>, and the select statement of a subquery is validly
  constructed itself (\<open>ok\<close>, a property of the statements of the other file).
\<close>

fun valid_Subquery :: "(SelectStatement \<Rightarrow> bool) \<Rightarrow> Subquery \<Rightarrow> bool" where
  "valid_Subquery ok (Subquery sel) = ok sel"

fun valid_Expr :: "(SelectStatement \<Rightarrow> bool) \<Rightarrow> Expr \<Rightarrow> bool"
  and valid_Exprs :: "(SelectStatement \<Rightarrow> bool) \<Rightarrow> Expr list \<Rightarrow> bool"
  and valid_Whens :: "(SelectStatement \<Rightarrow> bool) \<Rightarrow> When list \<Rightarrow> bool"
  and valid_When :: "(SelectStatement \<Rightarrow> bool) \<Rightarrow> When \<Rightarrow> bool"
where
  "valid_Expr ok (AndExpr l r) = (valid_Expr ok l \<and> valid_Expr ok r)"
| "valid_Expr ok (OrExpr l r) = (valid_Expr ok l \<and> valid_Expr ok r)"
| "valid_Expr ok (NotExpr e) = valid_Expr ok e"
| "valid_Expr ok (ParenBoolExpr e) = valid_Expr ok e"
| "valid_Expr ok (ComparisonExpr operator l r) = (valid_Expr ok l \<and> valid_Expr ok r)"
| "valid_Expr ok (RangeCond operator l from to) =
     (valid_Expr ok l \<and> valid_Expr ok from \<and> valid_Expr ok to)"
| "valid_Expr ok (NullCheck operator e) = valid_Expr ok e"
| "valid_Expr ok (ExistsExpr sq) = valid_Subquery ok sq"
| "valid_Expr ok (StrVal s) = True"
| "valid_Expr ok (NumVal s) = True"
| "valid_Expr ok (ValArg s) = (s \<noteq> [])"
| "valid_Expr ok NullVal = True"
| "valid_Expr ok (ColNameExpr c) = True"
| "valid_Expr ok (ValTuple exprs) = valid_Exprs ok exprs"
| "valid_Expr ok (SubqueryExpr sq) = valid_Subquery ok sq"
| "valid_Expr ok (BinaryExpr operator l r) = (valid_Expr ok l \<and> valid_Expr ok r)"
| "valid_Expr ok (UnaryExpr operator e) = valid_Expr ok e"
| "valid_Expr ok (FuncExpr name isDistinct exprs) = valid_Exprs ok exprs"
| "valid_Expr ok (CaseExpr expr whens els) =
     ((case expr of None \<Rightarrow> True | Some e \<Rightarrow> valid_Expr ok e) \<and>
      valid_Whens ok whens \<and>
      (case els of None \<Rightarrow> True | Some e \<Rightarrow> valid_Expr ok e))"
| "valid_Expr ok (LikeExpr node) = (case node of None \<Rightarrow> True | Some e \<Rightarrow> valid_Expr ok e)"
| "valid_Expr ok (WhereExpr node) = (case node of None \<Rightarrow> True | Some e \<Rightarrow> valid_Expr ok e)"
| "valid_Exprs ok [] = True"
| "valid_Exprs ok (n # ns) = (valid_Expr ok n \<and> valid_Exprs ok ns)"
| "valid_Whens ok [] = True"
| "valid_Whens ok (w # ws) = (valid_When ok w \<and> valid_Whens ok ws)"
| "valid_When ok (When cond val) = (valid_Expr ok cond \<and> valid_Expr ok val)"

fun valid_SelectExpr :: "(SelectStatement \<Rightarrow> bool) \<Rightarrow> SelectExpr \<Rightarrow> bool" where
  "valid_SelectExpr ok (StarExpr tableName) = True"
| "valid_SelectExpr ok (NonStarExpr expr as) = valid_Expr ok expr"

fun valid_SimpleTableExpr :: "(SelectStatement \<Rightarrow> bool) \<Rightarrow> SimpleTableExpr \<Rightarrow> bool" where
  "valid_SimpleTableExpr ok (TableNameExpr t) = True"
| "valid_SimpleTableExpr ok (SubqueryTable sq) = valid_Subquery ok sq"

fun valid_TableExpr :: "(SelectStatement \<Rightarrow> bool) \<Rightarrow> TableExpr \<Rightarrow> bool" where
  "valid_TableExpr ok (AliasedTableExpr expr as hints) = valid_SimpleTableExpr ok expr"
| "valid_TableExpr ok (ParenTableExpr expr) = valid_TableExpr ok expr"
| "valid_TableExpr ok (JoinTableExpr leftExpr join rightExpr on) =
     (valid_TableExpr ok leftExpr \<and> valid_TableExpr ok rightExpr \<and>
      (case on of None \<Rightarrow> True | Some e \<Rightarrow> valid_Expr ok e))"

fun valid_Where :: "(SelectStatement \<Rightarrow> bool) \<Rightarrow> Where option \<Rightarrow> bool" where
  "valid_Where ok None = True"
| "valid_Where ok (Some (Where type expr)) = valid_Expr ok expr"

fun valid_Order :: "(SelectStatement \<Rightarrow> bool) \<Rightarrow> Order \<Rightarrow> bool" where
  "valid_Order ok (Order expr direction) = valid_Expr ok expr"

fun valid_UpdateExpr :: "(SelectStatement \<Rightarrow> bool) \<Rightarrow> UpdateExpr \<Rightarrow> bool" where
  "valid_UpdateExpr ok (UpdateExpr name expr) = valid_Expr ok expr"

definition valid_Limit :: "(SelectStatement \<Rightarrow> bool) \<Rightarrow> Limit option \<Rightarrow> bool" where
  "valid_Limit ok node =
     (case node of
        None \<Rightarrow> True
      | Some l \<Rightarrow>
          (case Offset l of None \<Rightarrow> True | Some e \<Rightarrow> valid_Expr ok e) \<and>
          (case Rowcount l of None \<Rightarrow> False | Some e \<Rightarrow> valid_Expr ok e))"

section \<open>Rendered text\<close>

text \<open>
  A formatter is append-only when, from any buffer, it fails as it does from a new one,
  or else leaves the buffer's content in place and appends what it writes into a new one.
\<close>

definition append_buf :: "TrackedBuffer \<Rightarrow> TrackedBuffer \<Rightarrow> TrackedBuffer" where
  "append_buf b w = \<lparr>out = out b @ out w, bindVars = bindVars b @ bindVars w\<rparr>"

definition appendOnly :: "formatter \<Rightarrow> bool" where
  "appendOnly f =
     (\<forall>b. f b = (case f NewTrackedBuffer of Inl p \<Rightarrow> Inl p | Inr w \<Rightarrow> Inr (append_buf b w)))"

text \<open>
  \<open>renders f t\<close>: from any buffer, \<open>f\<close> returns and has appended exactly \<open>t\<close> to the
  text. \<open>never_panics f\<close>: from any buffer, \<open>f\<close> returns.
\<close>

definition renders :: "formatter \<Rightarrow> string \<Rightarrow> bool" where
  "renders f t = (\<forall>b. \<exists>b'. f b = Inr b' \<and> out b' = out b @ t)"

definition never_panics :: "formatter \<Rightarrow> bool" where
  "never_panics f = (\<forall>b. \<exists>b'. f b = Inr b')"

text \<open>Texts joined by a separator: it stands between two texts, never before or after.\<close>

fun join :: "string \<Rightarrow> string list \<Rightarrow> string" where
  "join sep [] = []"
| "join sep [t] = t"
| "join sep (t # u # ts) = t @ sep @ join sep (u # ts)"

text \<open>
  The identifier as the quoting rule writes it: between backticks when it is in the
  keyword table or has a byte outside the class, bare otherwise.
\<close>

definition quoted :: "env \<Rightarrow> bytes \<Rightarrow> string" where
  "quoted env name =
     (if name \<in> keywords_table env \<or>
         (\<exists>ch\<in>set name. \<not> isLetter (of_char ch) \<and> \<not> isDigit (of_char ch))
      then ''`'' @ name @ ''`'' else name)"

text \<open>An environment for concrete runs, with a table of lower-case keywords.\<close>

definition env0 :: env where
  "env0 = \<lparr>keywords_table = {''select'', ''order'', ''from''},
           EncodeSQL = (\<lambda>s. CHR 0x27 # s @ [CHR 0x27]),
           argText = (\<lambda>a. CHR '':'' # a),
           SelectFormat = (\<lambda>sel b. Inr b)\<rparr>"




section \<open>Properties of strconv's functions\<close>

lemma unat_nonneg_sint:
  fixes w :: "64 word"
  assumes "0 \<le> sint w"
  shows "unat w = nat (sint w)"
proof -
  have "sint w < 2 ^ 63" using sint_lt [of w] by simp
  then have "take_bit 64 (sint w) = sint w"
    using assms by (simp add: take_bit_int_eq_self)
  then have "uint w = sint w" using uint_sint [of w] by simp
  then show ?thesis by (simp add: unat_eq_nat_uint)
qed

lemma unat_neg_sint:
  fixes w :: "64 word"
  assumes "sint w < 0"
  shows "unat (- w) = nat (- sint w)"
proof -
  have lo: "- (2 ^ 63) \<le> sint w" using sint_ge [of w] by simp
  have "- w = word_of_int (- sint w)" by simp
  then have "uint (- w) = take_bit 64 (- sint w)"
    by (simp only: uint_word_of_int_eq) simp
  moreover have "take_bit 64 (- sint w) = - sint w"
    using assms lo by (simp add: take_bit_int_eq_self)
  ultimately show ?thesis by (simp add: unat_eq_nat_uint)
qed

lemma FormatInt_decimal: "FormatInt w = decimal (sint w)"
proof (cases "w <s 0")
  case True
  then have neg: "sint w < 0" by (simp add: word_sless_alt)
  with True unat_neg_sint [OF neg] show ?thesis
    by (simp only: FormatInt_def decimal_def if_True)
next
  case False
  then have nn: "0 \<le> sint w" by (simp add: word_sless_alt)
  then have "\<not> sint w < 0" by simp
  with False unat_nonneg_sint [OF nn] show ?thesis
    by (simp only: FormatInt_def decimal_def if_False)
qed

lemma sint_add_in_range:
  fixes a b :: "64 word"
  assumes "- (2 ^ 63) \<le> sint a + sint b" "sint a + sint b < 2 ^ 63"
  shows "sint (a + b) = sint a + sint b"
  using assms by (simp add: sint_word_add signed_take_bit_int_eq_self)

lemma ParseInt_10: "ParseInt ''10'' = (10, None)"
  by code_simp

lemma ParseInt_20: "ParseInt ''20'' = (20, None)"
  by code_simp

lemma ParseInt_5: "ParseInt ''5'' = (5, None)"
  by code_simp

lemma decimal_30: "decimal 30 = ''30''"
  by (simp add: decimal_def)

text \<open>
  \<open>ParseInt\<close> accepts exactly the base-10 texts of signed 64-bit integers, with their
  value, and reads back what \<open>FormatInt\<close> writes.
\<close>

lemma decimal_value_ge: "n \<le> decimal_value s n"
proof (induction s arbitrary: n)
  case Nil
  then show ?case by simp
next
  case (Cons c s)
  have "n \<le> 10 * n + (of_char c - 48)" by simp
  also have "\<dots> \<le> decimal_value s (10 * n + (of_char c - 48))" by (rule Cons.IH)
  finally show ?case by simp
qed

lemma digit_of_digit: "isDecimalDigit c \<Longrightarrow> digit_of c = Some (of_char c - 48)"
  by (simp add: isDecimalDigit_def digit_of_def)

lemma digit_of_nondigit:
  "\<not> isDecimalDigit c \<Longrightarrow> digit_of c = None \<or> (\<exists>d. digit_of c = Some d \<and> 10 \<le> d)"
  by (auto simp add: isDecimalDigit_def digit_of_def)

lemma ParseUint_loop_nondigit:
  "\<not> isDecimalDigit c \<Longrightarrow> ParseUint_loop (c # s) n = Inl ErrSyntax"
  using digit_of_nondigit [of c] by auto

lemma ParseUint_loop_digit:
  assumes "isDecimalDigit c"
  shows "ParseUint_loop (c # s) n =
    (if n \<ge> cutoff10 then Inl ErrRange
     else if n * 10 + of_nat (of_char c - 48) < n * 10 then Inl ErrRange
     else ParseUint_loop s (n * 10 + of_nat (of_char c - 48)))"
proof -
  from assms have "of_char c - 48 < (10::nat)" by (auto simp add: isDecimalDigit_def)
  then show ?thesis
    by (simp add: digit_of_digit [OF assms] Let_def del: of_nat_diff)
qed

lemma unat_cutoff10: "unat cutoff10 = 1844674407370955162"
  by (simp add: cutoff10_def)

lemma step_no_overflow:
  fixes n :: "64 word"
  assumes "\<not> cutoff10 \<le> n" and "d < 10"
  shows "unat (n * 10) = unat n * 10"
    and "(n * 10 + of_nat d < n * 10) = (2 ^ 64 \<le> unat n * 10 + d)"
    and "\<not> n * 10 + of_nat d < n * 10 \<Longrightarrow> unat (n * 10 + of_nat d) = unat n * 10 + d"
proof -
  from assms(1) have lt: "unat n < 1844674407370955162"
    by (simp add: word_le_nat_alt unat_cutoff10)
  have ten: "unat (10 :: 64 word) = 10" by simp
  from lt have "unat n * unat (10 :: 64 word) < 2 ^ LENGTH(64)" by (simp add: ten)
  then have "unat (n * 10) = unat n * unat (10 :: 64 word)"
    by (simp only: unat_mult_lem)
  then show m: "unat (n * 10) = unat n * 10" by (simp add: ten)
  have d: "unat (of_nat d :: 64 word) = d"
    using assms(2) by (simp add: unat_of_nat)
  have "(n * 10 \<le> n * 10 + of_nat d) = (unat (n * 10) + unat (of_nat d :: 64 word) < 2 ^ LENGTH(64))"
    by (rule no_olen_add_nat)
  then show o: "(n * 10 + of_nat d < n * 10) = (2 ^ 64 \<le> unat n * 10 + d)"
    by (simp add: m d not_le [symmetric] not_less)
  assume "\<not> n * 10 + of_nat d < n * 10"
  with o have "unat (n * 10) + unat (of_nat d :: 64 word) < 2 ^ LENGTH(64)"
    by (simp add: m d)
  then have "unat (n * 10 + of_nat d) = unat (n * 10) + unat (of_nat d :: 64 word)"
    by (simp only: unat_add_lem)
  then show "unat (n * 10 + of_nat d) = unat n * 10 + d" by (simp add: m d)
qed

lemma ParseUint_loop_ok_iff:
  "ParseUint_loop s n = Inr m \<longleftrightarrow>
     list_all isDecimalDigit s \<and> decimal_value s (unat n) < 2 ^ 64 \<and>
     unat m = decimal_value s (unat n)"
proof (induction s arbitrary: n)
  case Nil
  have "unat n < 2 ^ 64" using unsigned_less [of n] by simp
  then show ?case by (auto simp add: word_unat_eq_iff)
next
  case (Cons c s)
  show ?case
  proof (cases "isDecimalDigit c")
    case False
    then show ?thesis by (simp add: ParseUint_loop_nondigit del: ParseUint_loop.simps)
  next
    case True
    define d :: nat where "d = of_char c - 48"
    from True have d10: "d < 10" by (auto simp add: isDecimalDigit_def d_def)
    show ?thesis
    proof (cases "cutoff10 \<le> n")
      case big: True
      then have "1844674407370955162 \<le> unat n"
        by (simp add: word_le_nat_alt unat_cutoff10)
      then have "2 ^ 64 \<le> 10 * unat n + d" by simp
      also have "\<dots> \<le> decimal_value s (10 * unat n + d)" by (rule decimal_value_ge)
      finally have "\<not> decimal_value (c # s) (unat n) < 2 ^ 64" by (simp add: d_def)
      with True big show ?thesis by (simp add: ParseUint_loop_digit del: ParseUint_loop.simps)
    next
      case small: False
      note st = step_no_overflow [OF small d10]
      show ?thesis
      proof (cases "n * 10 + of_nat d < n * 10")
        case wrap: True
        with st(2) have "2 ^ 64 \<le> 10 * unat n + d" by (simp add: mult.commute)
        also have "\<dots> \<le> decimal_value s (10 * unat n + d)" by (rule decimal_value_ge)
        finally have "\<not> decimal_value (c # s) (unat n) < 2 ^ 64" by (simp add: d_def)
        with True small wrap show ?thesis by (simp add: ParseUint_loop_digit d_def del: ParseUint_loop.simps)
      next
        case nowrap: False
        from st(3) [OF nowrap] have u: "unat (n * 10 + of_nat d) = 10 * unat n + d"
          by (simp add: mult.commute)
        from True small nowrap
        have "ParseUint_loop (c # s) n = ParseUint_loop s (n * 10 + of_nat d)"
          by (simp add: ParseUint_loop_digit d_def del: ParseUint_loop.simps)
        with Cons.IH [of "n * 10 + of_nat d"] u True show ?thesis
          by (simp add: d_def del: ParseUint_loop.simps of_nat_diff)
      qed
    qed
  qed
qed

lemma ParseUint_ok_iff:
  "ParseUint s = Inr m \<longleftrightarrow>
     s \<noteq> [] \<and> list_all isDecimalDigit s \<and> decimal_value s 0 < 2 ^ 64 \<and>
     unat m = decimal_value s 0"
  using ParseUint_loop_ok_iff [of s 0 m] by (simp add: ParseUint_def)

lemma ParseUint_error:
  "ParseUint s = Inl e \<Longrightarrow>
     s = [] \<or> \<not> list_all isDecimalDigit s \<or> 2 ^ 64 \<le> decimal_value s 0"
proof (rule ccontr)
  assume e: "ParseUint s = Inl e"
    and "\<not> (s = [] \<or> \<not> list_all isDecimalDigit s \<or> 2 ^ 64 \<le> decimal_value s 0)"
  then have "s \<noteq> []" "list_all isDecimalDigit s" "decimal_value s 0 < 2 ^ 64"
    by simp_all
  then have "ParseUint s = Inr (of_nat (decimal_value s 0))"
    by (simp add: ParseUint_ok_iff unat_of_nat)
  with e show False by simp
qed

lemma uint_bound_of_unat:
  fixes un :: "64 word"
  shows "unat un < 2 ^ 63 \<Longrightarrow> uint un < 2 ^ 63"
    and "unat un \<le> 2 ^ 63 \<Longrightarrow> uint un \<le> 2 ^ 63"
proof -
  have e: "uint un = int (unat un)" by simp
  have p: "(2 ^ 63 :: int) = int (2 ^ 63)" by simp
  show "unat un < 2 ^ 63 \<Longrightarrow> uint un < 2 ^ 63"
    by (simp only: e p of_nat_less_iff)
  show "unat un \<le> 2 ^ 63 \<Longrightarrow> uint un \<le> 2 ^ 63"
    by (simp only: e p of_nat_le_iff)
qed

lemma sint_of_small:
  fixes un :: "64 word"
  assumes "unat un < 2 ^ 63"
  shows "sint un = int (unat un)"
proof -
  have pos: "(0::int) < 2 ^ 63" by simp
  have nn: "0 \<le> uint un" by simp
  from pos nn have lo: "- (2 ^ 63) \<le> uint un" by linarith
  have hi: "uint un < 2 ^ 63" using assms by (rule uint_bound_of_unat(1))
  have "sint un = signed_take_bit 63 (uint un)" by (simp add: sint_uint)
  also have "\<dots> = uint un" using lo hi by (rule signed_take_bit_int_eq_self)
  finally show ?thesis by simp
qed

lemma sint_neg_of_small:
  fixes un :: "64 word"
  assumes "unat un \<le> 2 ^ 63"
  shows "sint (- un) = - int (unat un)"
proof -
  have "uint un \<le> 2 ^ 63" using assms by (rule uint_bound_of_unat(2))
  then have lo: "- (2 ^ 63) \<le> - uint un" by linarith
  have pos: "(0::int) < 2 ^ 63" by simp
  have nn: "0 \<le> uint un" by simp
  from pos nn have hi: "- uint un < 2 ^ 63" by linarith
  have "sint (- un) = sint (word_of_int (- uint un) :: 64 word)" by simp
  also have "\<dots> = signed_take_bit (LENGTH(64) - 1) (- uint un)"
    by (rule sint_sbintrunc')
  also have "\<dots> = signed_take_bit 63 (- uint un)" by simp
  also have "\<dots> = - uint un" using lo hi by (rule signed_take_bit_int_eq_self)
  finally show ?thesis by simp
qed

lemma cutoff_le: "((2 ^ 63 :: 64 word) \<le> un) = (2 ^ 63 \<le> unat un)"
  by (simp add: word_le_nat_alt)

lemma cutoff_less: "((2 ^ 63 :: 64 word) < un) = (2 ^ 63 < unat un)"
  by (simp add: word_less_nat_alt)

theorem ParseInt_ok_iff:
  "(\<exists>v. ParseInt s0 = (v, None) \<and> sint v = i) \<longleftrightarrow> int64_text s0 = Some i"
proof (cases "s0 = []")
  case True
  then show ?thesis by (simp add: ParseInt_def int64_text_def)
next
  case False
  define neg where "neg = (hd s0 = CHR ''-'')"
  define s where "s = (if hd s0 = CHR ''+'' \<or> hd s0 = CHR ''-'' then tl s0 else s0)"
  define u where "u = decimal_value s 0"
  have P: "ParseInt s0 =
      (case ParseUint s of
         Inl ErrSyntax \<Rightarrow> (0, Some (NumError ''ParseInt'' s0 ErrSyntax))
       | Inl ErrRange \<Rightarrow>
           (if neg then (- (2 ^ 63), Some (NumError ''ParseInt'' s0 ErrRange))
            else (2 ^ 63 - 1, Some (NumError ''ParseInt'' s0 ErrRange)))
       | Inr un \<Rightarrow>
           if \<not> neg \<and> un \<ge> 2 ^ 63
             then (2 ^ 63 - 1, Some (NumError ''ParseInt'' s0 ErrRange))
           else if neg \<and> un > 2 ^ 63
             then (- (2 ^ 63), Some (NumError ''ParseInt'' s0 ErrRange))
           else (if neg then - un else un, None))"
    by (simp only: ParseInt_def Let_def neg_def s_def False if_False)
  have T: "int64_text s0 =
      (if s = [] \<or> \<not> list_all isDecimalDigit s then None
       else let i = (if neg then - int u else int u)
            in if - (2 ^ 63) \<le> i \<and> i < 2 ^ 63 then Some i else None)"
    by (simp only: int64_text_def Let_def neg_def s_def u_def False if_False)
  show ?thesis
  proof (cases "ParseUint s")
    case (Inl e)
    from ParseUint_error [OF Inl]
    have "s = [] \<or> \<not> list_all isDecimalDigit s \<or> 2 ^ 64 \<le> u" by (simp only: u_def)
    then have "int64_text s0 = None" by (auto simp add: T Let_def)
    moreover from Inl have "snd (ParseInt s0) \<noteq> None"
      by (cases e) (simp_all add: P)
    ultimately show ?thesis by auto
  next
    case (Inr un)
    then have ok: "s \<noteq> []" "list_all isDecimalDigit s" "u < 2 ^ 64" "unat un = u"
      by (simp_all add: ParseUint_ok_iff u_def)
    have P': "ParseInt s0 =
        (if \<not> neg \<and> 2 ^ 63 \<le> u then (2 ^ 63 - 1, Some (NumError ''ParseInt'' s0 ErrRange))
         else if neg \<and> 2 ^ 63 < u then (- (2 ^ 63), Some (NumError ''ParseInt'' s0 ErrRange))
         else (if neg then - un else un, None))"
      by (simp only: P Inr sum.case cutoff_le cutoff_less ok(4))
    have T': "int64_text s0 =
        (if - (2 ^ 63) \<le> (if neg then - int u else int u) \<and>
            (if neg then - int u else int u) < 2 ^ 63
         then Some (if neg then - int u else int u) else None)"
      using ok(1,2) by (simp only: T Let_def simp_thms if_False)
    show ?thesis
    proof (cases neg)
      case True
      show ?thesis
      proof (cases "2 ^ 63 < u")
        case True
        then have "\<not> - (2 ^ 63) \<le> - int u" by simp
        with \<open>neg\<close> True show ?thesis by (simp only: P' T' if_True if_False simp_thms) simp
      next
        case False
        then have le: "u \<le> 2 ^ 63" by simp
        with ok have v: "sint (- un) = - int u" by (simp only: sint_neg_of_small)
        from le have "- (2 ^ 63) \<le> - int u \<and> - int u < 2 ^ 63" by simp
        with \<open>neg\<close> False v show ?thesis
          by (simp only: P' T' if_True if_False simp_thms) auto
      qed
    next
      case False
      show ?thesis
      proof (cases "2 ^ 63 \<le> u")
        case True
        then have "\<not> int u < 2 ^ 63" by simp
        with \<open>\<not> neg\<close> True show ?thesis by (simp only: P' T' if_True if_False simp_thms) simp
      next
        case nb: False
        then have lt: "u < 2 ^ 63" by simp
        with ok have v: "sint un = int u" by (simp only: sint_of_small)
        from lt have "- (2 ^ 63) \<le> int u \<and> int u < 2 ^ 63" by simp
        with \<open>\<not> neg\<close> nb v show ?thesis
          by (simp only: P' T' if_True if_False simp_thms) auto
      qed
    qed
  qed
qed

lemma decimal_value_append:
  "decimal_value (xs @ ys) n = decimal_value ys (decimal_value xs n)"
  by (induction xs arbitrary: n) simp_all

lemma digit_chars:
  "\<forall>d\<in>set [0..<10]. isDecimalDigit (''0123456789'' ! d) \<and>
     (of_char (''0123456789'' ! d) :: nat) - 48 = d"
  by code_simp

lemma digit_char:
  assumes "d < 10"
  shows "isDecimalDigit (''0123456789'' ! d)"
    and "(of_char (''0123456789'' ! d) :: nat) - 48 = d"
  using digit_chars assms by auto

lemma formatBits_digits:
  "formatBits u \<noteq> [] \<and> list_all isDecimalDigit (formatBits u) \<and>
     decimal_value (formatBits u) 0 = u"
proof (induction u rule: formatBits.induct)
  case (1 u)
  show ?case
  proof (cases "u < 10")
    case True
    then have "formatBits u = [''0123456789'' ! u]"
      by (subst formatBits.simps) simp
    with digit_char [OF True] show ?thesis by simp
  next
    case False
    then have e: "formatBits u = formatBits (u div 10) @ [''0123456789'' ! (u mod 10)]"
      by (subst formatBits.simps) simp
    have m: "u mod 10 < 10" by simp
    from "1.IH" [OF False] digit_char [OF m] show ?thesis
      by (simp add: e decimal_value_append del: formatBits.simps)
  qed
qed

lemma isDecimalDigit_no_sign: "isDecimalDigit c \<Longrightarrow> c \<noteq> CHR ''+'' \<and> c \<noteq> CHR ''-''"
  by (auto simp add: isDecimalDigit_def)

lemma int64_text_decimal:
  assumes "- (2 ^ 63) \<le> i" and "i < 2 ^ 63"
  shows "int64_text (decimal i) = Some i"
proof (cases "i < 0")
  case True
  define s where "s = formatBits (nat (- i))"
  have d: "s \<noteq> []" "list_all isDecimalDigit s" "decimal_value s 0 = nat (- i)"
    using formatBits_digits [of "nat (- i)"] by (simp_all add: s_def)
  from True have "decimal i = CHR ''-'' # s" by (simp add: decimal_def s_def)
  with d True assms show ?thesis
    by (simp add: int64_text_def Let_def del: formatBits.simps)
next
  case False
  define s where "s = formatBits (nat i)"
  have d: "s \<noteq> []" "list_all isDecimalDigit s" "decimal_value s 0 = nat i"
    using formatBits_digits [of "nat i"] by (simp_all add: s_def)
  from d(1,2) have "isDecimalDigit (hd s)" by (cases s) simp_all
  then have h: "hd s \<noteq> CHR ''+''" "hd s \<noteq> CHR ''-''"
    using isDecimalDigit_no_sign by blast+
  from False have "decimal i = s" by (simp add: decimal_def s_def)
  with d h False assms show ?thesis
    by (simp add: int64_text_def Let_def del: formatBits.simps)
qed

theorem ParseInt_FormatInt: "ParseInt (FormatInt w) = (w, None)"
proof -
  have "- (2 ^ 63) \<le> sint w" "sint w < 2 ^ 63"
    using sint_ge [of w] sint_lt [of w] by simp_all
  then have "int64_text (FormatInt w) = Some (sint w)"
    by (simp only: FormatInt_decimal int64_text_decimal)
  then obtain v where v: "ParseInt (FormatInt w) = (v, None)" "sint v = sint w"
    using ParseInt_ok_iff [of "FormatInt w" "sint w"] by blast
  from v(2) have "v = w" by (rule signed_word_eqI)
  with v(1) show ?thesis by simp
qed

lemma sint_add_wrap64:
  fixes a b :: "64 word"
  shows "sint (a + b) = wrap64 (sint a + sint b)"
  by (simp add: sint_word_add wrap64_def signed_take_bit_eq_take_bit_shift take_bit_eq_mod)

lemma wrap64_in_range: "- (2 ^ 63) \<le> n \<Longrightarrow> n < 2 ^ 63 \<Longrightarrow> wrap64 n = n"
  by (simp add: wrap64_def)

lemma digit_chars_nonzero:
  "\<forall>d\<in>set [1..<10]. ''0123456789'' ! d \<noteq> CHR ''0''"
  by code_simp

lemma formatBits_0: "formatBits 0 = ''0''"
  by (subst formatBits.simps) simp

lemma formatBits_hd:
  "0 < u \<Longrightarrow> hd (formatBits u) \<noteq> CHR ''0''"
proof (induction u rule: formatBits.induct)
  case (1 u)
  show ?case
  proof (cases "u < 10")
    case True
    then have e: "formatBits u = [''0123456789'' ! u]"
      by (subst formatBits.simps) simp
    from True "1.prems" have "u \<in> set [1..<10]" by simp
    with digit_chars_nonzero have "''0123456789'' ! u \<noteq> CHR ''0''" by blast
    with e show ?thesis by simp
  next
    case False
    then have e: "formatBits u = formatBits (u div 10) @ [''0123456789'' ! (u mod 10)]"
      by (subst formatBits.simps) simp
    from False have p: "0 < u div 10" by simp
    have ne: "formatBits (u div 10) \<noteq> []" using formatBits_digits [of "u div 10"] by blast
    from "1.IH" [OF False p] ne show ?thesis
      by (simp add: e del: formatBits.simps)
  qed
qed

lemma canonical_decimal_decimal: "canonical_decimal (decimal i)"
proof (cases "i < 0")
  case True
  define s where "s = formatBits (nat (- i))"
  have d: "s \<noteq> []" "list_all isDecimalDigit s"
    using formatBits_digits [of "nat (- i)"] by (simp_all add: s_def)
  from True have "hd s \<noteq> CHR ''0''" unfolding s_def by (intro formatBits_hd) simp
  moreover from True have "decimal i = CHR ''-'' # s" by (simp add: decimal_def s_def)
  ultimately show ?thesis using d by (simp add: canonical_decimal_def)
next
  case False
  define s where "s = formatBits (nat i)"
  have d: "s \<noteq> []" "list_all isDecimalDigit s"
    using formatBits_digits [of "nat i"] by (simp_all add: s_def)
  from d have "isDecimalDigit (hd s)" by (cases s) simp_all
  then have h: "hd s \<noteq> CHR ''-''" using isDecimalDigit_no_sign by blast
  have z: "hd s \<noteq> CHR ''0'' \<or> s = ''0''"
  proof (cases "nat i = 0")
    case True
    then show ?thesis by (simp add: s_def formatBits_0 del: formatBits.simps)
  next
    case False
    then show ?thesis unfolding s_def by (intro disjI1 formatBits_hd) simp
  qed
  from False have "decimal i = s" by (simp add: decimal_def s_def)
  with d h z show ?thesis by (simp add: canonical_decimal_def)
qed

lemma int64_text_max:
  "int64_text ''9223372036854775807'' = Some 9223372036854775807 \<and>
   int64_text ''1'' = Some 1 \<and>
   int64_text ''-9223372036854775808'' = Some (- 9223372036854775808)"
  by (simp add: int64_text_def isDecimalDigit_def)

lemma ParseInt_max: "ParseInt ''9223372036854775807'' = (9223372036854775807, None)"
proof -
  from int64_text_max obtain v :: "64 word"
    where v: "ParseInt ''9223372036854775807'' = (v, None)" "sint v = 9223372036854775807"
    using ParseInt_ok_iff [of "''9223372036854775807''" 9223372036854775807] by blast
  have "sint (9223372036854775807 :: 64 word) = 9223372036854775807" by simp
  with v(2) have "v = 9223372036854775807" by (intro signed_word_eqI) simp
  with v(1) show ?thesis by simp
qed

lemma ParseInt_1: "ParseInt ''1'' = (1, None)"
  by code_simp

lemma FormatInt_wrapped: "FormatInt (9223372036854775807 + 1) = ''-9223372036854775808''"
proof -
  have "sint ((9223372036854775807 :: 64 word) + 1) = - 9223372036854775808" by simp
  moreover have "decimal (- 9223372036854775808) = ''-9223372036854775808''"
    by (simp add: decimal_def)
  ultimately show ?thesis by (simp only: FormatInt_decimal)
qed

lemma int64_text_small:
  "int64_text ''10'' = Some 10 \<and> int64_text ''20'' = Some 20 \<and> int64_text ''30'' = Some 30"
  by (simp add: int64_text_def isDecimalDigit_def)

section \<open>Properties of RewriteLimit\<close>

text \<open>
  C1, as the code has it. Let \<open>p\<close> be an allocated \<open>Limit\<close> whose \<open>Offset\<close> is \<open>nil\<close> (read
  as 0) or a \<open>NumVal\<close> holding the base-10 text of a signed 64-bit integer \<open>i\<close>, and whose
  \<open>Rowcount\<close> is a \<open>NumVal\<close> holding the base-10 text of a signed 64-bit integer \<open>j\<close>. Then
  \<open>RewriteLimit\<close> returns no error and a new node whose \<open>Offset\<close> is \<open>nil\<close> and whose
  \<open>Rowcount\<close> is a \<open>NumVal\<close> holding a decimal text in canonical form; that text reads as
  \<open>i + j\<close> wrapped around to 64 bits, which is \<open>i + j\<close> itself whenever the sum fits 64
  bits. \<open>RewriteLimit\<close> of a \<open>nil\<close> pointer returns \<open>nil\<close>, no error, and the store as it was.
\<close>

theorem RewriteLimit_sum:
  assumes alloc: "p < next_addr h"
    and ofs: "Offset (cells h p) = None \<and> i = 0 \<or>
         (\<exists>o1. Offset (cells h p) = Some (NumVal o1) \<and> int64_text o1 = Some i)"
    and row: "Rowcount (cells h p) = Some (NumVal r)"
    and cnt: "int64_text r = Some j"
  shows "RewriteLimit None h = ((None, None), h) \<and>
    (\<exists>h' t. RewriteLimit (Some p) h = ((Some (next_addr h), None), h') \<and>
       cells h' (next_addr h) = \<lparr>Offset = None, Rowcount = Some (NumVal t)\<rparr> \<and>
       canonical_decimal t \<and>
       int64_text t = Some (wrap64 (i + j)) \<and>
       (- (2 ^ 63) \<le> i + j \<and> i + j < 2 ^ 63 \<longrightarrow> int64_text t = Some (i + j)))"
proof -
  have nil: "RewriteLimit None h = ((None, None), h)"
    by (simp add: RewriteLimit_def)
  have ne: "p \<noteq> next_addr h" using alloc by simp
  obtain count where count: "ParseInt r = (count, None)" "sint count = j"
    using cnt ParseInt_ok_iff [of r j] by blast
  obtain offset where offset: "sint offset = i"
    "Offset (cells h p) = None \<and> offset = 0 \<or>
       (\<exists>o1. Offset (cells h p) = Some (NumVal o1) \<and> ParseInt o1 = (offset, None))"
    using ofs
  proof
    assume a: "Offset (cells h p) = None \<and> i = 0"
    show ?thesis by (rule that [of 0]) (use a in simp_all)
  next
    assume "\<exists>o1. Offset (cells h p) = Some (NumVal o1) \<and> int64_text o1 = Some i"
    then obtain o1 where o1: "Offset (cells h p) = Some (NumVal o1)" "int64_text o1 = Some i"
      by blast
    then obtain v where "ParseInt o1 = (v, None)" "sint v = i"
      using ParseInt_ok_iff [of o1 i] by blast
    with o1 show ?thesis by (intro that [of v]) auto
  qed
  define t where "t = decimal (sint (offset + count))"
  have run: "\<exists>h'. RewriteLimit (Some p) h = ((Some (next_addr h), None), h') \<and>
       cells h' (next_addr h) = \<lparr>Offset = None, Rowcount = Some (NumVal t)\<rparr>"
    using offset(2)
  proof
    assume "Offset (cells h p) = None \<and> offset = 0"
    then show ?thesis using ne row count(1)
      by (simp add: RewriteLimit_def new_Limit_def FormatInt_decimal t_def)
  next
    assume "\<exists>o1. Offset (cells h p) = Some (NumVal o1) \<and> ParseInt o1 = (offset, None)"
    then obtain o1 where "Offset (cells h p) = Some (NumVal o1)" "ParseInt o1 = (offset, None)"
      by blast
    then show ?thesis using ne row count(1)
      by (simp add: RewriteLimit_def new_Limit_def FormatInt_decimal t_def)
  qed
  have can: "canonical_decimal t" unfolding t_def by (rule canonical_decimal_decimal)
  have "- (2 ^ 63) \<le> sint (offset + count)" "sint (offset + count) < 2 ^ 63"
    using sint_ge [of "offset + count"] sint_lt [of "offset + count"] by simp_all
  then have "int64_text t = Some (sint (offset + count))"
    unfolding t_def by (rule int64_text_decimal)
  then have rd: "int64_text t = Some (wrap64 (i + j))"
    by (simp only: sint_add_wrap64 offset(1) count(2))
  then have fit: "- (2 ^ 63) \<le> i + j \<and> i + j < 2 ^ 63 \<longrightarrow> int64_text t = Some (i + j)"
    by (simp add: wrap64_in_range)
  from nil run can rd fit show ?thesis by blast
qed

theorem RewriteLimit_sum_witness:
  "int64_text ''10'' = Some 10 \<and> int64_text ''20'' = Some 20 \<and>
   RewriteLimit None (heap_of \<lparr>Offset = Some (NumVal ''10''), Rowcount = Some (NumVal ''20'')\<rparr>)
     = ((None, None), heap_of \<lparr>Offset = Some (NumVal ''10''), Rowcount = Some (NumVal ''20'')\<rparr>) \<and>
   fst (RewriteLimit (Some 0)
          (heap_of \<lparr>Offset = Some (NumVal ''10''), Rowcount = Some (NumVal ''20'')\<rparr>))
     = (Some 1, None) \<and>
   cells (snd (RewriteLimit (Some 0)
          (heap_of \<lparr>Offset = Some (NumVal ''10''), Rowcount = Some (NumVal ''20'')\<rparr>))) 1
     = \<lparr>Offset = None, Rowcount = Some (NumVal ''30'')\<rparr> \<and>
   canonical_decimal ''30'' \<and> int64_text ''30'' = Some (10 + 20)"
proof -
  let ?h = "heap_of \<lparr>Offset = Some (NumVal ''10''), Rowcount = Some (NumVal ''20'')\<rparr>"
  have a: "(0::nat) < next_addr ?h" by (simp add: heap_of_def)
  have t: "int64_text ''10'' = Some 10" and c: "int64_text ''20'' = Some 20"
    using int64_text_small by simp_all
  have o: "Offset (cells ?h 0) = None \<and> (10::int) = 0 \<or>
       (\<exists>o1. Offset (cells ?h 0) = Some (NumVal o1) \<and> int64_text o1 = Some 10)"
    by (simp add: heap_of_def t)
  have r: "Rowcount (cells ?h 0) = Some (NumVal ''20'')" by (simp add: heap_of_def)
  have run: "fst (RewriteLimit (Some 0) ?h) = (Some 1, None)"
    "cells (snd (RewriteLimit (Some 0) ?h)) 1 = \<lparr>Offset = None, Rowcount = Some (NumVal ''30'')\<rparr>"
    by (simp_all add: RewriteLimit_def new_Limit_def heap_of_def ParseInt_10 ParseInt_20
        FormatInt_decimal decimal_30)
  from RewriteLimit_sum [OF a o r c] obtain h' u where
    n: "RewriteLimit None ?h = ((None, None), ?h)"
    and u: "RewriteLimit (Some 0) ?h = ((Some (next_addr ?h), None), h')"
      "cells h' (next_addr ?h) = \<lparr>Offset = None, Rowcount = Some (NumVal u)\<rparr>"
      "canonical_decimal u"
      "- (2 ^ 63) \<le> (10::int) + 20 \<and> (10::int) + 20 < 2 ^ 63 \<longrightarrow> int64_text u = Some (10 + 20)"
    by blast
  from u(1) have "h' = snd (RewriteLimit (Some 0) ?h)" by simp
  with u(2) run(2) have "u = ''30''" by (simp add: heap_of_def)
  with u(3,4) have v: "canonical_decimal ''30''" "int64_text ''30'' = Some (10 + 20)" by simp_all
  from t c n run v show ?thesis by (intro conjI)
qed

text \<open>
  The sum need not fit: at the offset \<open>2^63 - 1\<close> and the count 1, both accepted, the
  \<open>int64\<close> addition wraps, and the new \<open>Rowcount\<close> reads as \<open>-2^63\<close>, not as the sum.
\<close>

theorem RewriteLimit_overflow_counterexample:
  "int64_text ''9223372036854775807'' = Some 9223372036854775807 \<and>
   int64_text ''1'' = Some 1 \<and>
   fst (RewriteLimit (Some 0)
       (heap_of \<lparr>Offset = Some (NumVal ''9223372036854775807''), Rowcount = Some (NumVal ''1'')\<rparr>))
     = (Some 1, None) \<and>
   cells (snd (RewriteLimit (Some 0)
       (heap_of \<lparr>Offset = Some (NumVal ''9223372036854775807''), Rowcount = Some (NumVal ''1'')\<rparr>))) 1
     = \<lparr>Offset = None, Rowcount = Some (NumVal ''-9223372036854775808'')\<rparr> \<and>
   int64_text ''-9223372036854775808'' = Some (- 9223372036854775808) \<and>
   int64_text ''-9223372036854775808'' \<noteq> Some (9223372036854775807 + 1)"
proof -
  let ?h = "heap_of \<lparr>Offset = Some (NumVal ''9223372036854775807''), Rowcount = Some (NumVal ''1'')\<rparr>"
  have run: "RewriteLimit (Some 0) ?h =
      ((Some 1, None),
       \<lparr>cells = (cells ?h)(1 := \<lparr>Offset = None,
            Rowcount = Some (NumVal (FormatInt (9223372036854775807 + 1)))\<rparr>),
        next_addr = 2\<rparr>)"
    unfolding RewriteLimit_def new_Limit_def heap_of_def
    by (simp add: ParseInt_max ParseInt_1 del: add_numeral_special)
  have a: "fst (RewriteLimit (Some 0) ?h) = (Some 1, None)"
    by (simp only: run fst_conv)
  have b: "cells (snd (RewriteLimit (Some 0) ?h)) 1
      = \<lparr>Offset = None, Rowcount = Some (NumVal ''-9223372036854775808'')\<rparr>"
    by (simp only: run snd_conv FormatInt_wrapped heap.simps fun_upd_same)
  from int64_text_max have c: "int64_text ''-9223372036854775808'' \<noteq> Some (9223372036854775807 + 1)"
    by simp
  from int64_text_max a b c show ?thesis by blast
qed

lemma assert_NumVal_None_iff:
  "assert_NumVal x = None \<longleftrightarrow> (\<forall>b. x \<noteq> Some (NumVal b))"
  by (cases x rule: assert_NumVal.cases) auto

lemma ParseInt_abc: "ParseInt ''abc'' = (0, Some (NumError ''ParseInt'' ''abc'' ErrSyntax))"
  by code_simp

text \<open>
  C2, as the code has it. For an allocated \<open>Limit\<close> the checks run in this order and the
  first failure is returned: an \<open>Offset\<close> that is present and is no \<open>NumVal\<close> gives the
  error text \<open>Limit.offset is not number\<close>; an \<open>Offset\<close> literal that \<open>ParseInt\<close> rejects
  gives that conversion error; once the offset is \<open>nil\<close> or parsed, a \<open>Rowcount\<close> that is no
  \<open>NumVal\<close> (a \<open>nil\<close> one too) gives the error text \<open>Limit.RowCount is not number\<close>, and a
  \<open>Rowcount\<close> literal that \<open>ParseInt\<close> rejects gives that conversion error. Whenever an
  error is returned the node returned is \<open>nil\<close>, and the two texts differ.
\<close>

theorem RewriteLimit_errors:
  assumes alloc: "p < next_addr h"
  shows
    "(\<forall>e. Offset (cells h p) = Some e \<and> (\<forall>b. e \<noteq> NumVal b) \<longrightarrow>
        fst (RewriteLimit (Some p) h) = (None, Some (ErrorString ''Limit.offset is not number''))) \<and>
     (\<forall>o1 v err. Offset (cells h p) = Some (NumVal o1) \<and> ParseInt o1 = (v, Some err) \<longrightarrow>
        fst (RewriteLimit (Some p) h) = (None, Some err)) \<and>
     (Offset (cells h p) = None \<or>
        (\<exists>o1 v. Offset (cells h p) = Some (NumVal o1) \<and> ParseInt o1 = (v, None)) \<longrightarrow>
        ((\<forall>b. Rowcount (cells h p) \<noteq> Some (NumVal b)) \<longrightarrow>
           fst (RewriteLimit (Some p) h) =
             (None, Some (ErrorString ''Limit.RowCount is not number''))) \<and>
        (\<forall>r v err. Rowcount (cells h p) = Some (NumVal r) \<and> ParseInt r = (v, Some err) \<longrightarrow>
           fst (RewriteLimit (Some p) h) = (None, Some err))) \<and>
     (snd (fst (RewriteLimit (Some p) h)) \<noteq> None \<longrightarrow> fst (fst (RewriteLimit (Some p) h)) = None) \<and>
     ErrorString ''Limit.offset is not number'' \<noteq> ErrorString ''Limit.RowCount is not number''"
proof -
  have ne: "p \<noteq> next_addr h" using alloc by simp
  have a: "\<forall>e. Offset (cells h p) = Some e \<and> (\<forall>b. e \<noteq> NumVal b) \<longrightarrow>
        fst (RewriteLimit (Some p) h) = (None, Some (ErrorString ''Limit.offset is not number''))"
  proof (intro allI impI)
    fix e assume e: "Offset (cells h p) = Some e \<and> (\<forall>b. e \<noteq> NumVal b)"
    then have "assert_NumVal (Some e) = None" by (simp add: assert_NumVal_None_iff)
    with e ne show "fst (RewriteLimit (Some p) h) = (None, Some (ErrorString ''Limit.offset is not number''))"
      by (simp add: RewriteLimit_def new_Limit_def)
  qed
  have b: "\<forall>o1 v err. Offset (cells h p) = Some (NumVal o1) \<and> ParseInt o1 = (v, Some err) \<longrightarrow>
        fst (RewriteLimit (Some p) h) = (None, Some err)"
    using ne by (simp add: RewriteLimit_def new_Limit_def)
  have c: "Offset (cells h p) = None \<or>
        (\<exists>o1 v. Offset (cells h p) = Some (NumVal o1) \<and> ParseInt o1 = (v, None)) \<longrightarrow>
        ((\<forall>b. Rowcount (cells h p) \<noteq> Some (NumVal b)) \<longrightarrow>
           fst (RewriteLimit (Some p) h) =
             (None, Some (ErrorString ''Limit.RowCount is not number''))) \<and>
        (\<forall>r v err. Rowcount (cells h p) = Some (NumVal r) \<and> ParseInt r = (v, Some err) \<longrightarrow>
           fst (RewriteLimit (Some p) h) = (None, Some err))"
  proof (intro impI conjI allI)
    assume o: "Offset (cells h p) = None \<or>
        (\<exists>o1 v. Offset (cells h p) = Some (NumVal o1) \<and> ParseInt o1 = (v, None))"
      and r: "\<forall>b. Rowcount (cells h p) \<noteq> Some (NumVal b)"
    from r have "assert_NumVal (Rowcount (cells h p)) = None"
      by (simp add: assert_NumVal_None_iff)
    with o ne show "fst (RewriteLimit (Some p) h) =
             (None, Some (ErrorString ''Limit.RowCount is not number''))"
      by (auto simp add: RewriteLimit_def new_Limit_def)
  next
    fix r v err
    assume o: "Offset (cells h p) = None \<or>
        (\<exists>o1 v. Offset (cells h p) = Some (NumVal o1) \<and> ParseInt o1 = (v, None))"
      and r: "Rowcount (cells h p) = Some (NumVal r) \<and> ParseInt r = (v, Some err)"
    with ne show "fst (RewriteLimit (Some p) h) = (None, Some err)"
      by (auto simp add: RewriteLimit_def new_Limit_def)
  qed
  have d: "snd (fst (RewriteLimit (Some p) h)) \<noteq> None \<longrightarrow> fst (fst (RewriteLimit (Some p) h)) = None"
    by (simp add: RewriteLimit_def new_Limit_def Let_def split: option.splits sum.splits prod.splits)
  have e: "ErrorString ''Limit.offset is not number'' \<noteq> ErrorString ''Limit.RowCount is not number''"
    by simp
  show ?thesis
    by (rule conjI [OF a conjI [OF b conjI [OF c conjI [OF d e]]]])
qed

theorem RewriteLimit_errors_witness:
  "fst (RewriteLimit (Some 0)
      (heap_of \<lparr>Offset = Some (ColNameExpr (ColName ''x'' None)), Rowcount = Some (NumVal ''5'')\<rparr>))
     = (None, Some (ErrorString ''Limit.offset is not number'')) \<and>
   fst (RewriteLimit (Some 0)
      (heap_of \<lparr>Offset = Some (NumVal ''abc''), Rowcount = Some (NumVal ''5'')\<rparr>))
     = (None, Some (NumError ''ParseInt'' ''abc'' ErrSyntax)) \<and>
   fst (RewriteLimit (Some 0) (heap_of \<lparr>Offset = None, Rowcount = Some (StrVal ''abc'')\<rparr>))
     = (None, Some (ErrorString ''Limit.RowCount is not number'')) \<and>
   fst (RewriteLimit (Some 0) (heap_of \<lparr>Offset = None, Rowcount = Some (NumVal ''abc'')\<rparr>))
     = (None, Some (NumError ''ParseInt'' ''abc'' ErrSyntax))"
  using
    RewriteLimit_errors [of 0 "heap_of \<lparr>Offset = Some (ColNameExpr (ColName ''x'' None)), Rowcount = Some (NumVal ''5'')\<rparr>"]
    RewriteLimit_errors [of 0 "heap_of \<lparr>Offset = Some (NumVal ''abc''), Rowcount = Some (NumVal ''5'')\<rparr>"]
    RewriteLimit_errors [of 0 "heap_of \<lparr>Offset = None, Rowcount = Some (StrVal ''abc'')\<rparr>"]
    RewriteLimit_errors [of 0 "heap_of \<lparr>Offset = None, Rowcount = Some (NumVal ''abc'')\<rparr>"]
  by (simp add: heap_of_def ParseInt_abc)

text \<open>
  The error texts of the code are not \<open>offset is not a number\<close> and \<open>row count is not a
  number\<close>; and with an \<open>Offset\<close> that is no literal, a \<open>Rowcount\<close> that is no literal
  either is not reported: the offset's error is.
\<close>

theorem RewriteLimit_messages_counterexample:
  "snd (fst (RewriteLimit (Some 0)
      (heap_of \<lparr>Offset = Some (ColNameExpr (ColName ''x'' None)), Rowcount = Some (NumVal ''5'')\<rparr>)))
     = Some (ErrorString ''Limit.offset is not number'') \<and>
   ErrorString ''Limit.offset is not number'' \<noteq> ErrorString ''offset is not a number'' \<and>
   snd (fst (RewriteLimit (Some 0) (heap_of \<lparr>Offset = None, Rowcount = Some (StrVal ''abc'')\<rparr>)))
     = Some (ErrorString ''Limit.RowCount is not number'') \<and>
   ErrorString ''Limit.RowCount is not number'' \<noteq> ErrorString ''row count is not a number'' \<and>
   snd (fst (RewriteLimit (Some 0)
      (heap_of \<lparr>Offset = Some (ColNameExpr (ColName ''x'' None)), Rowcount = Some (StrVal ''abc'')\<rparr>)))
     = Some (ErrorString ''Limit.offset is not number'')"
  by (simp add: RewriteLimit_def new_Limit_def heap_of_def)

text \<open>
  C9. \<open>RewriteLimit\<close> on an allocated \<open>Limit\<close> leaves that node, and every node allocated
  before the call, as it was, whatever it returns (an error or a node); a node it returns
  is at the address allocated by the call, which is not the input's.
\<close>

theorem RewriteLimit_fresh:
  assumes alloc: "p < next_addr h"
    and run: "RewriteLimit (Some p) h = ((res, err), h')"
  shows "cells h' p = cells h p \<and>
     (\<forall>q. q < next_addr h \<longrightarrow> cells h' q = cells h q) \<and>
     (\<forall>q. res = Some q \<longrightarrow> q = next_addr h \<and> q \<noteq> p \<and> q < next_addr h')"
  using assms
  by (auto simp add: RewriteLimit_def new_Limit_def Let_def split: option.splits sum.splits prod.splits if_splits)

theorem RewriteLimit_fresh_witness:
  "cells (snd (RewriteLimit (Some 0)
       (heap_of \<lparr>Offset = Some (NumVal ''10''), Rowcount = Some (NumVal ''20'')\<rparr>))) 0
     = \<lparr>Offset = Some (NumVal ''10''), Rowcount = Some (NumVal ''20'')\<rparr> \<and>
   fst (fst (RewriteLimit (Some 0)
       (heap_of \<lparr>Offset = Some (NumVal ''10''), Rowcount = Some (NumVal ''20'')\<rparr>))) = Some 1 \<and>
   cells (snd (RewriteLimit (Some 0)
       (heap_of \<lparr>Offset = Some (ColNameExpr (ColName ''x'' None)), Rowcount = None\<rparr>))) 0
     = \<lparr>Offset = Some (ColNameExpr (ColName ''x'' None)), Rowcount = None\<rparr>"
proof -
  let ?h = "heap_of \<lparr>Offset = Some (NumVal ''10''), Rowcount = Some (NumVal ''20'')\<rparr>"
  let ?g = "heap_of \<lparr>Offset = Some (ColNameExpr (ColName ''x'' None)), Rowcount = None\<rparr>"
  have a: "(0::nat) < next_addr ?h" and b: "(0::nat) < next_addr ?g"
    by (simp_all add: heap_of_def)
  have r: "fst (fst (RewriteLimit (Some 0) ?h)) = Some 1"
    by (simp add: RewriteLimit_def new_Limit_def heap_of_def ParseInt_10 ParseInt_20)
  from RewriteLimit_fresh [OF a, of "fst (fst (RewriteLimit (Some 0) ?h))"
      "snd (fst (RewriteLimit (Some 0) ?h))" "snd (RewriteLimit (Some 0) ?h)"]
    RewriteLimit_fresh [OF b, of "fst (fst (RewriteLimit (Some 0) ?g))"
      "snd (fst (RewriteLimit (Some 0) ?g))" "snd (RewriteLimit (Some 0) ?g)"]
    r
  show ?thesis by (simp add: heap_of_def)
qed

section \<open>Properties of the Format methods\<close>

lemma append_buf_New [simp]: "append_buf NewTrackedBuffer w = w" "append_buf b NewTrackedBuffer = b"
  by (simp_all add: append_buf_def NewTrackedBuffer_def)

lemma append_buf_assoc: "append_buf (append_buf a b) c = append_buf a (append_buf b c)"
  by (simp add: append_buf_def)

lemma out_append_buf [simp]: "out (append_buf b w) = out b @ out w"
  by (simp add: append_buf_def)

lemma appendOnlyI:
  assumes "\<And>b. f b = (case r of Inl p \<Rightarrow> Inl p | Inr w \<Rightarrow> Inr (append_buf b w))"
  shows "appendOnly f"
proof -
  have "f NewTrackedBuffer = r"
    using assms [of NewTrackedBuffer] by (cases r) simp_all
  with assms show ?thesis by (simp add: appendOnly_def)
qed

lemma appendOnly_skip [simp]: "appendOnly skip"
  by (rule appendOnlyI [where r = "Inr NewTrackedBuffer"]) (simp add: skip_def)

lemma appendOnly_nil_node [simp]: "appendOnly nil_node"
  by (rule appendOnlyI [where r = "Inl NilNode"]) (simp add: nil_node_def)

lemma appendOnly_seq [simp]:
  assumes "appendOnly f" and "appendOnly g"
  shows "appendOnly (seq f g)"
proof -
  define rf where "rf = f NewTrackedBuffer"
  define rg where "rg = g NewTrackedBuffer"
  have f: "\<And>b. f b = (case rf of Inl p \<Rightarrow> Inl p | Inr w \<Rightarrow> Inr (append_buf b w))"
    unfolding rf_def using assms(1) [unfolded appendOnly_def] by (rule spec)
  have g: "\<And>b. g b = (case rg of Inl p \<Rightarrow> Inl p | Inr w \<Rightarrow> Inr (append_buf b w))"
    unfolding rg_def using assms(2) [unfolded appendOnly_def] by (rule spec)
  show ?thesis
  proof (rule appendOnlyI [where r = "case rf of Inl p \<Rightarrow> Inl p
        | Inr w1 \<Rightarrow> (case rg of Inl p \<Rightarrow> Inl p | Inr w2 \<Rightarrow> Inr (append_buf w1 w2))"])
    fix b
    show "seq f g b =
      (case (case rf of Inl p \<Rightarrow> Inl p
        | Inr w1 \<Rightarrow> (case rg of Inl p \<Rightarrow> Inl p | Inr w2 \<Rightarrow> Inr (append_buf w1 w2))) of
         Inl p \<Rightarrow> Inl p | Inr w \<Rightarrow> Inr (append_buf b w))"
      by (cases rf; cases rg) (simp_all add: seq_def andThen_def f g append_buf_assoc)
  qed
qed

lemma appendOnly_write: "appendOnly (\<lambda>b. Inr (WriteString s b))"
  by (rule appendOnlyI [where r = "Inr (WriteString s NewTrackedBuffer)"])
     (simp add: WriteString_def append_buf_def NewTrackedBuffer_def)

lemma appendOnly_WriteArg: "appendOnly (\<lambda>b. Inr (WriteArg env a b))"
  by (rule appendOnlyI [where r = "Inr (WriteArg env a NewTrackedBuffer)"])
     (simp add: WriteArg_def append_buf_def NewTrackedBuffer_def)

lemma appendOnly_ValArg:
  "appendOnly (\<lambda>buf. if s = [] then Inl SliceBounds else Inr (WriteArg env (tl s) buf))"
proof (cases "s = []")
  case True
  then show ?thesis by (intro appendOnlyI [where r = "Inl SliceBounds"]) simp
next
  case False
  then show ?thesis by (simp add: appendOnly_WriteArg)
qed

lemma Fprintf_seq:
  "Fprintf (Lit s # ps) = seq (\<lambda>b. Inr (WriteString s b)) (Fprintf ps)"
  "Fprintf (Str s # ps) = seq (\<lambda>b. Inr (WriteString s b)) (Fprintf ps)"
  "Fprintf (Chr c # ps) = seq (\<lambda>b. Inr (WriteString [c] b)) (Fprintf ps)"
  "Fprintf (Node f # ps) = seq f (Fprintf ps)"
  "Fprintf [] = skip"
  by (rule ext, simp add: seq_def andThen_def skip_def)+

lemma appendOnly_Fprintf [simp]:
  "appendOnly (Fprintf [])"
  "appendOnly (Fprintf ps) \<Longrightarrow> appendOnly (Fprintf (Lit s # ps))"
  "appendOnly (Fprintf ps) \<Longrightarrow> appendOnly (Fprintf (Str s # ps))"
  "appendOnly (Fprintf ps) \<Longrightarrow> appendOnly (Fprintf (Chr c # ps))"
  "appendOnly f \<Longrightarrow> appendOnly (Fprintf ps) \<Longrightarrow> appendOnly (Fprintf (Node f # ps))"
  by (simp_all only: Fprintf_seq appendOnly_seq appendOnly_write appendOnly_skip)

lemma appendOnly_escape [simp]: "appendOnly (escape env name)"
  by (simp add: escape_def)

lemma appendOnly_Format_ColName [simp]: "appendOnly (Format_ColName env c)"
  by (cases c) (simp split: option.splits)

lemma appendOnly_Format_TableName [simp]: "appendOnly (Format_TableName env c)"
  by (cases c) (simp split: option.splits)

lemma appendOnly_Format_Subquery:
  "(\<And>s. appendOnly (SelectFormat env s)) \<Longrightarrow> appendOnly (Format_Subquery env sq)"
  by (cases sq) simp

lemma appendOnly_Format_Expr:
  assumes "\<And>s. appendOnly (SelectFormat env s)"
  shows "appendOnly (Format_Expr env e)"
    and "appendOnly (ValExprs_loop env pre es)"
    and "appendOnly (Whens_loop env ws)"
    and "appendOnly (Format_When env w)"
  using assms
proof (induction env e and env pre es and env ws and env w
    rule: Format_Expr_ValExprs_loop_Whens_loop_Format_When.induct)
qed (simp_all add: appendOnly_Format_Subquery appendOnly_write appendOnly_ValArg split: option.splits)

lemma renders_skip [simp]: "renders skip []"
  by (simp add: renders_def skip_def)

lemma renders_seq:
  assumes "renders f t1" and "renders g t2"
  shows "renders (seq f g) (t1 @ t2)"
  unfolding renders_def
proof
  fix b
  from assms(1) obtain b1 where b1: "f b = Inr b1" "out b1 = out b @ t1"
    unfolding renders_def by blast
  from assms(2) obtain b2 where b2: "g b1 = Inr b2" "out b2 = out b1 @ t2"
    unfolding renders_def by blast
  from b1 b2 show "\<exists>b'. seq f g b = Inr b' \<and> out b' = out b @ t1 @ t2"
    by (simp add: seq_def andThen_def)
qed

lemma renders_write: "renders (\<lambda>b. Inr (WriteString s b)) s"
  by (simp add: renders_def WriteString_def)

lemma renders_Fprintf_Nil: "renders (Fprintf []) []"
  by (simp add: renders_def)

lemma renders_Fprintf_Lit: "renders (Fprintf ps) t \<Longrightarrow> renders (Fprintf (Lit s # ps)) (s @ t)"
  by (simp only: Fprintf_seq renders_seq renders_write)

lemma renders_Fprintf_Str: "renders (Fprintf ps) t \<Longrightarrow> renders (Fprintf (Str s # ps)) (s @ t)"
  by (simp only: Fprintf_seq renders_seq renders_write)

lemma renders_Fprintf_Chr: "renders (Fprintf ps) t \<Longrightarrow> renders (Fprintf (Chr c # ps)) (c # t)"
  using renders_seq [OF renders_write [of "[c]"], of "Fprintf ps" t]
  by (simp only: Fprintf_seq append_Cons append_Nil)

lemma renders_Fprintf_Node:
  "renders f t1 \<Longrightarrow> renders (Fprintf ps) t \<Longrightarrow> renders (Fprintf (Node f # ps)) (t1 @ t)"
  by (simp only: Fprintf_seq renders_seq)

lemmas renders_Fprintf =
  renders_Fprintf_Nil renders_Fprintf_Lit renders_Fprintf_Str renders_Fprintf_Chr
  renders_Fprintf_Node

lemma renders_String: "renders f t \<Longrightarrow> String f = Inr t"
  unfolding renders_def String_def
  by (erule allE [where x = NewTrackedBuffer]) (auto simp add: NewTrackedBuffer_def)

lemma String_renders:
  assumes "appendOnly f" and "String f = Inr t"
  shows "renders f t"
  unfolding renders_def
proof
  fix b
  from assms(2) obtain w where w: "f NewTrackedBuffer = Inr w" "out w = t"
    by (auto simp add: String_def split: sum.splits)
  from assms(1) have "f b = (case f NewTrackedBuffer of Inl p \<Rightarrow> Inl p | Inr w \<Rightarrow> Inr (append_buf b w))"
    unfolding appendOnly_def by (rule spec)
  with w show "\<exists>b'. f b = Inr b' \<and> out b' = out b @ t" by simp
qed

lemma renders_unique: "renders f t \<Longrightarrow> renders f u \<Longrightarrow> t = u"
  using renders_String [of f t] renders_String [of f u] by simp

lemma join_Cons: "join sep (t # ts) = t @ (if ts = [] then [] else sep) @ join sep ts"
  by (cases ts) simp_all

lemma renders_range_loop:
  "list_all2 (\<lambda>x t. renders (f x) t) xs ts \<Longrightarrow>
     renders (range_loop f pre sep xs) ((if xs = [] then [] else pre) @ join sep ts)"
proof (induction xs ts arbitrary: pre rule: list_all2_induct)
  case Nil
  then show ?case by simp
next
  case (Cons x xs t ts)
  have e: "(xs = []) = (ts = [])"
    using Cons.hyps(2) by (auto dest: list_all2_lengthD)
  have "renders (Fprintf [Str pre, Node (f x)]) (pre @ t @ [])"
    by (intro renders_Fprintf Cons.hyps(1))
  from renders_seq [OF this Cons.IH [of sep]]
  show ?case by (simp add: join_Cons e)
qed

lemma appendOnly_range_loop:
  "(\<And>x. x \<in> set xs \<Longrightarrow> appendOnly (f x)) \<Longrightarrow> appendOnly (range_loop f pre sep xs)"
  by (induction xs arbitrary: pre) simp_all

lemma ValExprs_loop_range_loop:
  "ValExprs_loop env pre xs = range_loop (Format_Expr env) pre '', '' xs"
  by (induction xs arbitrary: pre) simp_all

lemma list_all2_String_renders:
  assumes "\<And>x. appendOnly (f x)"
    and "list_all2 (\<lambda>x t. String (f x) = Inr t) xs ts"
  shows "list_all2 (\<lambda>x t. renders (f x) t) xs ts"
  using assms(2) by (rule list_all2_mono) (simp add: String_renders assms(1))

lemma appendOnly_Format_SelectExpr:
  "(\<And>s. appendOnly (SelectFormat env s)) \<Longrightarrow> appendOnly (Format_SelectExpr env x)"
  by (cases x) (simp_all add: appendOnly_Format_Expr split: option.splits)

lemma appendOnly_Format_IndexHints: "appendOnly (Format_IndexHints h)"
  by (cases h) (simp add: appendOnly_range_loop)

lemma appendOnly_Format_SimpleTableExpr:
  "(\<And>s. appendOnly (SelectFormat env s)) \<Longrightarrow> appendOnly (Format_SimpleTableExpr env x)"
  by (cases x) (simp_all add: appendOnly_Format_Subquery)

lemma appendOnly_Format_TableExpr:
  "(\<And>s. appendOnly (SelectFormat env s)) \<Longrightarrow> appendOnly (Format_TableExpr env x)"
  by (induction x)
     (simp_all add: appendOnly_Format_SimpleTableExpr appendOnly_Format_IndexHints
        appendOnly_Format_Expr split: option.splits)

lemma appendOnly_Format_Order:
  "(\<And>s. appendOnly (SelectFormat env s)) \<Longrightarrow> appendOnly (Format_Order env x)"
  by (cases x) (simp add: appendOnly_Format_Expr)

lemma appendOnly_Format_UpdateExpr:
  "(\<And>s. appendOnly (SelectFormat env s)) \<Longrightarrow> appendOnly (Format_UpdateExpr env x)"
  by (cases x) (simp add: appendOnly_Format_Expr)

lemma appendOnly_Format_SpaceSplitExpr: "appendOnly (Format_SpaceSplitExpr x)"
  by (cases x) simp

lemma renders_joined:
  assumes "\<And>x. appendOnly (f x)"
    and "list_all2 (\<lambda>x t. String (f x) = Inr t) xs ts"
  shows "renders (range_loop f pre sep xs) ((if xs = [] then [] else pre) @ join sep ts)"
  by (rule renders_range_loop) (rule list_all2_String_renders [OF assms])

text \<open>
  C6. Let each element of a list node render, by \<open>String\<close>, to its text. Then the node
  renders, from any buffer, to these texts joined by \<open>", "\<close>, with no separator before
  the first or after the last: \<open>SelectExprs\<close>, \<open>TableExprs\<close>, \<open>ValExprs\<close> and
  \<open>UpdateExprs\<close> to exactly that, \<open>GroupBy\<close> and \<open>OrderBy\<close> to that after their
  clause prefix (and to nothing when empty). \<open>SpaceSplitExprs\<close> joins with one space.
  Three texts joined are \<open>a, b, c\<close>. The select statements of subqueries are taken to
  be append-only, as every \<open>Format\<close> of this file is.
\<close>

theorem list_separators:
  assumes sel: "\<And>s. appendOnly (SelectFormat env s)"
  shows
    "(list_all2 (\<lambda>x t. String (Format_SelectExpr env x) = Inr t) selectExprs selectTexts \<longrightarrow>
        renders (Format_SelectExprs env selectExprs) (join '', '' selectTexts)) \<and>
     (list_all2 (\<lambda>x t. String (Format_TableExpr env x) = Inr t) tableExprs tableTexts \<longrightarrow>
        renders (Format_TableExprs env tableExprs) (join '', '' tableTexts)) \<and>
     (list_all2 (\<lambda>x t. String (Format_Expr env x) = Inr t) valExprs valTexts \<longrightarrow>
        renders (Format_ValExprs env valExprs) (join '', '' valTexts)) \<and>
     (list_all2 (\<lambda>x t. String (Format_Expr env x) = Inr t) groupBy groupTexts \<longrightarrow>
        renders (Format_GroupBy env groupBy)
          ((if groupBy = [] then [] else '' group by '') @ join '', '' groupTexts)) \<and>
     (list_all2 (\<lambda>x t. String (Format_Order env x) = Inr t) orderBy orderTexts \<longrightarrow>
        renders (Format_OrderBy env orderBy)
          ((if orderBy = [] then [] else '' order by '') @ join '', '' orderTexts)) \<and>
     (list_all2 (\<lambda>x t. String (Format_UpdateExpr env x) = Inr t) updateExprs updateTexts \<longrightarrow>
        renders (Format_UpdateExprs env updateExprs) (join '', '' updateTexts)) \<and>
     (list_all2 (\<lambda>x t. String (Format_SpaceSplitExpr x) = Inr t) spaceSplitExprs splitTexts \<longrightarrow>
        renders (Format_SpaceSplitExprs spaceSplitExprs) (join '' '' splitTexts)) \<and>
     join '', '' [a, b, c] = a @ '', '' @ b @ '', '' @ c"
proof -
  note ao = appendOnly_Format_SelectExpr [OF sel] appendOnly_Format_TableExpr [OF sel]
    appendOnly_Format_Expr(1) [OF sel] appendOnly_Format_Order [OF sel]
    appendOnly_Format_UpdateExpr [OF sel] appendOnly_Format_SpaceSplitExpr
  show ?thesis
    unfolding Format_SelectExprs_def Format_TableExprs_def Format_ValExprs_def
      Format_GroupBy_def Format_OrderBy_def Format_UpdateExprs_def Format_SpaceSplitExprs_def
      ValExprs_loop_range_loop
    using renders_joined [of "Format_SelectExpr env" selectExprs selectTexts "[]" "'', ''", OF ao(1)]
      renders_joined [of "Format_TableExpr env" tableExprs tableTexts "[]" "'', ''", OF ao(2)]
      renders_joined [of "Format_Expr env" valExprs valTexts "[]" "'', ''", OF ao(3)]
      renders_joined [of "Format_Expr env" groupBy groupTexts "'' group by ''" "'', ''", OF ao(3)]
      renders_joined [of "Format_Order env" orderBy orderTexts "'' order by ''" "'', ''", OF ao(4)]
      renders_joined [of "Format_UpdateExpr env" updateExprs updateTexts "[]" "'', ''", OF ao(5)]
      renders_joined [of "Format_SpaceSplitExpr" spaceSplitExprs splitTexts "[]" "'' ''", OF ao(6)]
    by simp
qed

lemma renders_Whens_loop:
  "list_all2 (\<lambda>w t. renders (Format_When env w) t) ws ts \<Longrightarrow>
     renders (Whens_loop env ws) (concat (map (\<lambda>t. t @ '' '') ts))"
proof (induction ws ts rule: list_all2_induct)
  case Nil
  then show ?case by simp
next
  case (Cons w ws t ts)
  have "renders (Fprintf [Node (Format_When env w), Lit '' '']) (t @ '' '' @ [])"
    by (intro renders_Fprintf Cons.hyps(1))
  from renders_seq [OF this Cons.IH] show ?case by simp
qed

text \<open>
  C7. Let the operand, each \<open>When\<close> and the else value of a \<open>CaseExpr\<close> render, by
  \<open>String\<close>, to their texts (where present). Then the \<open>CaseExpr\<close> renders, from any
  buffer, to \<open>case\<close> and a space, the operand and a space when there is one, the text of
  each \<open>When\<close> followed by a space, in the order of \<open>Whens\<close>, then \<open>else\<close>, the else
  value and a space when there is one, then \<open>end\<close>. A \<open>When\<close> renders to \<open>when\<close>, its
  condition, \<open>then\<close> and its value, separated by single spaces.
\<close>

theorem CaseExpr_Format:
  assumes sel: "\<And>s. appendOnly (SelectFormat env s)"
  shows
    "(rel_option (\<lambda>x t. String (Format_Expr env x) = Inr t) expr te \<and>
      list_all2 (\<lambda>w t. String (Format_When env w) = Inr t) whens tws \<and>
      rel_option (\<lambda>x t. String (Format_Expr env x) = Inr t) els tel \<longrightarrow>
      renders (Format_Expr env (CaseExpr expr whens els))
        (''case '' @ (case te of None \<Rightarrow> [] | Some t \<Rightarrow> t @ '' '') @
         concat (map (\<lambda>t. t @ '' '') tws) @
         (case tel of None \<Rightarrow> [] | Some t \<Rightarrow> ''else '' @ t @ '' '') @ ''end'')) \<and>
     (String (Format_Expr env cond) = Inr tc \<and> String (Format_Expr env val) = Inr tv \<longrightarrow>
      renders (Format_When env (When cond val)) (''when '' @ tc @ '' then '' @ tv))"
proof (intro conjI impI)
  assume a: "rel_option (\<lambda>x t. String (Format_Expr env x) = Inr t) expr te \<and>
      list_all2 (\<lambda>w t. String (Format_When env w) = Inr t) whens tws \<and>
      rel_option (\<lambda>x t. String (Format_Expr env x) = Inr t) els tel"
  have r1: "renders (Fprintf [Lit ''case '']) (''case '' @ [])"
    by (intro renders_Fprintf)
  have r2: "renders (case expr of None \<Rightarrow> skip
        | Some e \<Rightarrow> Fprintf [Node (Format_Expr env e), Lit '' ''])
      (case te of None \<Rightarrow> [] | Some t \<Rightarrow> t @ '' '')"
  proof (cases expr)
    case None
    with a show ?thesis by (cases te) simp_all
  next
    case (Some e)
    with a obtain t where t: "te = Some t" "String (Format_Expr env e) = Inr t"
      by (cases te) simp_all
    have "renders (Fprintf [Node (Format_Expr env e), Lit '' '']) (t @ '' '' @ [])"
      by (intro renders_Fprintf String_renders [OF appendOnly_Format_Expr(1) [OF sel] t(2)])
    with Some t show ?thesis by simp
  qed
  have r3: "renders (Whens_loop env whens) (concat (map (\<lambda>t. t @ '' '') tws))"
    using a by (intro renders_Whens_loop list_all2_String_renders [where f = "Format_When env"]
        appendOnly_Format_Expr(4) [OF sel]) simp
  have r4: "renders (case els of None \<Rightarrow> skip
        | Some e \<Rightarrow> Fprintf [Lit ''else '', Node (Format_Expr env e), Lit '' ''])
      (case tel of None \<Rightarrow> [] | Some t \<Rightarrow> ''else '' @ t @ '' '')"
  proof (cases els)
    case None
    with a show ?thesis by (cases tel) simp_all
  next
    case (Some e)
    with a obtain t where t: "tel = Some t" "String (Format_Expr env e) = Inr t"
      by (cases tel) simp_all
    have "renders (Fprintf [Lit ''else '', Node (Format_Expr env e), Lit '' ''])
        (''else '' @ t @ '' '' @ [])"
      by (intro renders_Fprintf String_renders [OF appendOnly_Format_Expr(1) [OF sel] t(2)])
    with Some t show ?thesis by simp
  qed
  have r5: "renders (Fprintf [Lit ''end'']) (''end'' @ [])"
    by (intro renders_Fprintf)
  from renders_seq [OF r1 renders_seq [OF r2 renders_seq [OF r3 renders_seq [OF r4 r5]]]]
  show "renders (Format_Expr env (CaseExpr expr whens els))
        (''case '' @ (case te of None \<Rightarrow> [] | Some t \<Rightarrow> t @ '' '') @
         concat (map (\<lambda>t. t @ '' '') tws) @
         (case tel of None \<Rightarrow> [] | Some t \<Rightarrow> ''else '' @ t @ '' '') @ ''end'')"
    by simp
next
  assume a: "String (Format_Expr env cond) = Inr tc \<and> String (Format_Expr env val) = Inr tv"
  have "renders (Fprintf [Lit ''when '', Node (Format_Expr env cond), Lit '' then '',
        Node (Format_Expr env val)]) (''when '' @ tc @ '' then '' @ tv @ [])"
    using a by (intro renders_Fprintf String_renders [OF appendOnly_Format_Expr(1) [OF sel]]) simp_all
  then show "renders (Format_When env (When cond val)) (''when '' @ tc @ '' then '' @ tv)"
    by simp
qed

lemma never_panics_skip [simp]: "never_panics skip"
  by (simp add: never_panics_def skip_def)

lemma never_panics_seq [simp]:
  assumes "never_panics f" and "never_panics g"
  shows "never_panics (seq f g)"
  unfolding never_panics_def
proof
  fix b
  from assms(1) obtain b1 where "f b = Inr b1" unfolding never_panics_def by blast
  moreover from assms(2) obtain b2 where "g b1 = Inr b2" unfolding never_panics_def by blast
  ultimately show "\<exists>b'. seq f g b = Inr b'" by (simp add: seq_def andThen_def)
qed

lemma never_panics_write: "never_panics (\<lambda>b. Inr (g b))"
  by (simp add: never_panics_def)

lemma never_panics_Fprintf [simp]:
  "never_panics (Fprintf [])"
  "never_panics (Fprintf ps) \<Longrightarrow> never_panics (Fprintf (Lit s # ps))"
  "never_panics (Fprintf ps) \<Longrightarrow> never_panics (Fprintf (Str s # ps))"
  "never_panics (Fprintf ps) \<Longrightarrow> never_panics (Fprintf (Chr c # ps))"
  "never_panics f \<Longrightarrow> never_panics (Fprintf ps) \<Longrightarrow> never_panics (Fprintf (Node f # ps))"
  by (simp_all only: Fprintf_seq never_panics_seq never_panics_write never_panics_skip)

lemma never_panics_range_loop:
  "(\<And>x. x \<in> set xs \<Longrightarrow> never_panics (f x)) \<Longrightarrow> never_panics (range_loop f pre sep xs)"
  by (induction xs arbitrary: pre) simp_all

lemma never_panics_escape [simp]: "never_panics (escape env name)"
  by (simp add: escape_def)

lemma never_panics_Format_ColName [simp]: "never_panics (Format_ColName env c)"
  by (cases c) (simp split: option.splits)

lemma never_panics_Format_TableName [simp]: "never_panics (Format_TableName env c)"
  by (cases c) (simp split: option.splits)

lemma never_panics_Format_Subquery [simp]:
  "never_panics (SelectFormat env (case sq of Subquery sel \<Rightarrow> sel)) \<Longrightarrow>
     never_panics (Format_Subquery env sq)"
  by (cases sq) simp

lemma valid_Subquery_eq [simp]:
  "valid_Subquery ok sq = ok (case sq of Subquery sel \<Rightarrow> sel)"
  by (cases sq) simp

lemma never_panics_ValArg:
  "s \<noteq> [] \<Longrightarrow>
     never_panics (\<lambda>buf. if s = [] then Inl SliceBounds else Inr (WriteArg env (tl s) buf))"
  by (simp add: never_panics_def)

lemma never_panics_Format_Expr:
  assumes "\<And>s. ok s \<Longrightarrow> never_panics (SelectFormat env s)"
  shows "valid_Expr ok e \<Longrightarrow> never_panics (Format_Expr env e)"
    and "valid_Exprs ok es \<Longrightarrow> never_panics (ValExprs_loop env pre es)"
    and "valid_Whens ok ws \<Longrightarrow> never_panics (Whens_loop env ws)"
    and "valid_When ok w \<Longrightarrow> never_panics (Format_When env w)"
  using assms
proof (induction env e and env pre es and env ws and env w
    rule: Format_Expr_ValExprs_loop_Whens_loop_Format_When.induct)
qed (simp_all add: never_panics_write never_panics_ValArg split: option.splits)

lemma valid_Exprs_iff: "valid_Exprs ok es \<longleftrightarrow> list_all (valid_Expr ok) es"
  by (induction es) simp_all

lemma never_panics_Format_SelectExpr:
  assumes "\<And>s. ok s \<Longrightarrow> never_panics (SelectFormat env s)" and "valid_SelectExpr ok x"
  shows "never_panics (Format_SelectExpr env x)"
  using assms(2) never_panics_Format_Expr(1) [of ok env, OF assms(1)]
  by (cases x) (simp_all split: option.splits)

lemma never_panics_Format_IndexHints: "never_panics (Format_IndexHints h)"
  by (cases h) (simp add: never_panics_range_loop)

lemma never_panics_Format_SimpleTableExpr:
  assumes "\<And>s. ok s \<Longrightarrow> never_panics (SelectFormat env s)" and "valid_SimpleTableExpr ok x"
  shows "never_panics (Format_SimpleTableExpr env x)"
  using assms by (cases x) simp_all

lemma never_panics_Format_TableExpr:
  assumes "\<And>s. ok s \<Longrightarrow> never_panics (SelectFormat env s)" and "valid_TableExpr ok x"
  shows "never_panics (Format_TableExpr env x)"
  using assms(2) never_panics_Format_Expr(1) [of ok env, OF assms(1)]
    never_panics_Format_SimpleTableExpr [of ok env, OF assms(1)]
  by (induction x) (simp_all add: never_panics_Format_IndexHints split: option.splits)

lemma never_panics_Format_Order:
  assumes "\<And>s. ok s \<Longrightarrow> never_panics (SelectFormat env s)" and "valid_Order ok x"
  shows "never_panics (Format_Order env x)"
  using assms(2) never_panics_Format_Expr(1) [of ok env, OF assms(1)]
  by (cases x) simp

lemma never_panics_Format_UpdateExpr:
  assumes "\<And>s. ok s \<Longrightarrow> never_panics (SelectFormat env s)" and "valid_UpdateExpr ok x"
  shows "never_panics (Format_UpdateExpr env x)"
  using assms(2) never_panics_Format_Expr(1) [of ok env, OF assms(1)]
  by (cases x) simp

lemma never_panics_Format_SpaceSplitExpr: "never_panics (Format_SpaceSplitExpr x)"
  by (cases x) simp

lemma never_panics_Format_Comments: "never_panics (Format_Comments cs)"
  by (induction cs) simp_all

lemma never_panics_Format_Where:
  assumes "\<And>s. ok s \<Longrightarrow> never_panics (SelectFormat env s)" and "valid_Where ok x"
  shows "never_panics (Format_Where env x)"
  using assms(2) never_panics_Format_Expr(1) [of ok env, OF assms(1)]
  by (cases "(env, x)" rule: Format_Where.cases) simp_all

lemma never_panics_Format_Limit:
  assumes "\<And>s. ok s \<Longrightarrow> never_panics (SelectFormat env s)" and "valid_Limit ok x"
  shows "never_panics (Format_Limit env x)"
proof (cases x)
  case None
  then show ?thesis by (simp add: Format_Limit_def)
next
  case (Some l)
  note e = never_panics_Format_Expr(1) [of ok env, OF assms(1)]
  from Some assms(2) show ?thesis
    by (cases "Offset l"; cases "Rowcount l") (simp_all add: Format_Limit_def valid_Limit_def e)
qed

text \<open>
  C4. On a validly constructed tree no \<open>Format\<close> of this file panics: from any buffer
  it returns a buffer. Validly constructed means what \<open>valid_Expr\<close> and its companions
  say: every \<open>ValArg\<close> holds its marker byte, a \<open>Limit\<close> has a \<open>Rowcount\<close>, and the
  select statements of subqueries are valid ones, on which their own \<open>Format\<close> returns.
  The invariant on \<open>ValArg\<close> is needed: on an empty one \<open>Format\<close> panics.
\<close>

theorem Format_total:
  assumes sel: "\<And>s. ok s \<Longrightarrow> never_panics (SelectFormat env s)"
  shows
    "(valid_Expr ok e \<longrightarrow> never_panics (Format_Expr env e)) \<and>
     (valid_Limit ok limit \<longrightarrow> never_panics (Format_Limit env limit)) \<and>
     never_panics (Format_ColName env colName) \<and>
     never_panics (Format_TableName env tableName) \<and>
     (valid_Subquery ok sq \<longrightarrow> never_panics (Format_Subquery env sq)) \<and>
     (valid_When ok w \<longrightarrow> never_panics (Format_When env w)) \<and>
     (list_all (valid_Expr ok) valExprs \<longrightarrow> never_panics (Format_ValExprs env valExprs)) \<and>
     (valid_SelectExpr ok selectExpr \<longrightarrow> never_panics (Format_SelectExpr env selectExpr)) \<and>
     (list_all (valid_SelectExpr ok) selectExprs \<longrightarrow>
        never_panics (Format_SelectExprs env selectExprs)) \<and>
     (list_all (valid_SelectExpr ok) cols \<longrightarrow>
        never_panics (Format_Columns env None) \<and> never_panics (Format_Columns env (Some cols))) \<and>
     never_panics (Format_Comments comments) \<and>
     (valid_SimpleTableExpr ok simpleTableExpr \<longrightarrow>
        never_panics (Format_SimpleTableExpr env simpleTableExpr)) \<and>
     never_panics (Format_IndexHints hints) \<and>
     (valid_TableExpr ok tableExpr \<longrightarrow> never_panics (Format_TableExpr env tableExpr)) \<and>
     (list_all (valid_TableExpr ok) tableExprs \<longrightarrow>
        never_panics (Format_TableExprs env tableExprs)) \<and>
     (valid_Where ok wh \<longrightarrow> never_panics (Format_Where env wh)) \<and>
     never_panics (Format_ColNames env colNames) \<and>
     (list_all (valid_Expr ok) vals \<longrightarrow> never_panics (Format_Values env vals)) \<and>
     (list_all (valid_Expr ok) groupBy \<longrightarrow> never_panics (Format_GroupBy env groupBy)) \<and>
     (valid_Order ok order \<longrightarrow> never_panics (Format_Order env order)) \<and>
     (list_all (valid_Order ok) orderBy \<longrightarrow> never_panics (Format_OrderBy env orderBy)) \<and>
     (valid_UpdateExpr ok updateExpr \<longrightarrow> never_panics (Format_UpdateExpr env updateExpr)) \<and>
     (list_all (valid_UpdateExpr ok) updateExprs \<longrightarrow>
        never_panics (Format_UpdateExprs env updateExprs)) \<and>
     never_panics (Format_SpaceSplitExpr spaceSplitExpr) \<and>
     never_panics (Format_SpaceSplitExprs spaceSplitExprs) \<and>
     (list_all (valid_UpdateExpr ok) onDup \<longrightarrow>
        never_panics (Format_OnDup env None) \<and> never_panics (Format_OnDup env (Some onDup))) \<and>
     Format_Expr env (ValArg []) buf = Inl SliceBounds"
proof -
  note ex = never_panics_Format_Expr [of ok env, OF sel]
  have sq: "valid_Subquery ok sq \<longrightarrow> never_panics (Format_Subquery env sq)"
    using sel by simp
  have ves: "list_all (valid_Expr ok) valExprs \<longrightarrow> never_panics (Format_ValExprs env valExprs)"
    by (simp add: Format_ValExprs_def ex(2) valid_Exprs_iff)
  have ses: "list_all (valid_SelectExpr ok) xs \<longrightarrow> never_panics (Format_SelectExprs env xs)" for xs
    unfolding Format_SelectExprs_def
    by (auto intro!: never_panics_range_loop never_panics_Format_SelectExpr [of ok env, OF sel]
        simp add: list_all_iff)
  have cols: "list_all (valid_SelectExpr ok) cols \<longrightarrow>
      never_panics (Format_Columns env None) \<and> never_panics (Format_Columns env (Some cols))"
    using ses [of cols] by (simp add: Format_Columns_def)
  have tes: "list_all (valid_TableExpr ok) tableExprs \<longrightarrow>
      never_panics (Format_TableExprs env tableExprs)"
    unfolding Format_TableExprs_def
    by (auto intro!: never_panics_range_loop never_panics_Format_TableExpr [of ok env, OF sel]
        simp add: list_all_iff)
  have cns: "never_panics (Format_ColNames env colNames)"
    unfolding Format_ColNames_def by (rule never_panics_range_loop) simp
  have vals: "list_all (valid_Expr ok) vals \<longrightarrow> never_panics (Format_Values env vals)"
    unfolding Format_Values_def
    by (auto intro!: never_panics_range_loop ex(1) simp add: list_all_iff)
  have gb: "list_all (valid_Expr ok) groupBy \<longrightarrow> never_panics (Format_GroupBy env groupBy)"
    unfolding Format_GroupBy_def
    by (auto intro!: never_panics_range_loop ex(1) simp add: list_all_iff)
  have ob: "list_all (valid_Order ok) orderBy \<longrightarrow> never_panics (Format_OrderBy env orderBy)"
    unfolding Format_OrderBy_def
    by (auto intro!: never_panics_range_loop never_panics_Format_Order [of ok env, OF sel]
        simp add: list_all_iff)
  have ues: "list_all (valid_UpdateExpr ok) xs \<longrightarrow> never_panics (Format_UpdateExprs env xs)" for xs
    unfolding Format_UpdateExprs_def
    by (auto intro!: never_panics_range_loop never_panics_Format_UpdateExpr [of ok env, OF sel]
        simp add: list_all_iff)
  have od: "list_all (valid_UpdateExpr ok) onDup \<longrightarrow>
      never_panics (Format_OnDup env None) \<and> never_panics (Format_OnDup env (Some onDup))"
    using ues [of onDup] by (simp add: Format_OnDup_def)
  have sses: "never_panics (Format_SpaceSplitExprs spaceSplitExprs)"
    unfolding Format_SpaceSplitExprs_def
    by (rule never_panics_range_loop) (rule never_panics_Format_SpaceSplitExpr)
  have va: "Format_Expr env (ValArg []) buf = Inl SliceBounds"
    by simp
  have c1: "never_panics (Format_ColName env colName)"
    and c2: "never_panics (Format_TableName env tableName)"
    and c3: "never_panics (Format_Comments comments)"
    and c4: "never_panics (Format_IndexHints hints)"
    and c5: "never_panics (Format_SpaceSplitExpr spaceSplitExpr)"
    by (simp_all add: never_panics_Format_Comments never_panics_Format_IndexHints
        never_panics_Format_SpaceSplitExpr)
  have d1: "valid_Expr ok e \<longrightarrow> never_panics (Format_Expr env e)"
    and d2: "valid_When ok w \<longrightarrow> never_panics (Format_When env w)"
    using ex(1) [of e] ex(4) [of w] by simp_all
  have d3: "valid_SelectExpr ok selectExpr \<longrightarrow> never_panics (Format_SelectExpr env selectExpr)"
    using never_panics_Format_SelectExpr [of ok env selectExpr, OF sel] by simp
  have d4: "valid_SimpleTableExpr ok simpleTableExpr \<longrightarrow>
      never_panics (Format_SimpleTableExpr env simpleTableExpr)"
    using never_panics_Format_SimpleTableExpr [of ok env simpleTableExpr, OF sel] by simp
  have d5: "valid_TableExpr ok tableExpr \<longrightarrow> never_panics (Format_TableExpr env tableExpr)"
    using never_panics_Format_TableExpr [of ok env tableExpr, OF sel] by simp
  have d6: "valid_Where ok wh \<longrightarrow> never_panics (Format_Where env wh)"
    using never_panics_Format_Where [of ok env wh, OF sel] by simp
  have d7: "valid_Order ok order \<longrightarrow> never_panics (Format_Order env order)"
    using never_panics_Format_Order [of ok env order, OF sel] by simp
  have d8: "valid_Limit ok limit \<longrightarrow> never_panics (Format_Limit env limit)"
    using never_panics_Format_Limit [of ok env limit, OF sel] by simp
  have d9: "valid_UpdateExpr ok updateExpr \<longrightarrow> never_panics (Format_UpdateExpr env updateExpr)"
    using never_panics_Format_UpdateExpr [of ok env updateExpr, OF sel] by simp
  note ses' = ses [of selectExprs] and ues' = ues [of updateExprs]
  show ?thesis
    by (intro conjI)
       (fact c1 c2 c3 c4 c5 d1 d2 d3 d4 d5 d6 d7 d8 d9 sq ves ses' cols tes cns vals gb ob ues' od
          sses va)+
qed

lemma needQuota_loop_iff:
  "needQuota_loop name \<longleftrightarrow>
     (\<exists>ch\<in>set name. \<not> isLetter (of_char ch) \<and> \<not> isDigit (of_char ch))"
  by (induction name) auto

lemma renders_escape: "renders (escape env name) (quoted env name)"
proof -
  have q: "renders (Fprintf [Lit ''`'', Str name, Lit ''`'']) (''`'' @ name @ ''`'' @ [])"
    by (intro renders_Fprintf)
  have p: "renders (Fprintf [Str name]) (name @ [])"
    by (intro renders_Fprintf)
  show ?thesis
  proof (cases "name \<in> keywords_table env \<or> needQuota_loop name")
    case True
    then have "escape env name = Fprintf [Lit ''`'', Str name, Lit ''`'']"
      and "quoted env name = ''`'' @ name @ ''`''"
      by (auto simp add: escape_def quoted_def needQuota_loop_iff)
    with q show ?thesis by simp
  next
    case False
    then have "escape env name = Fprintf [Str name]" and "quoted env name = name"
      by (auto simp add: escape_def quoted_def needQuota_loop_iff)
    with p show ?thesis by simp
  qed
qed

lemma renders_Format_TableName:
  "renders (Format_TableName env (TableName name None)) (quoted env name)"
  "renders (Format_TableName env (TableName name (Some q))) (quoted env q @ ''.'' @ quoted env name)"
proof -
  have d: "renders (Fprintf [Lit ''.'']) (''.'' @ [])"
    by (intro renders_Fprintf)
  show "renders (Format_TableName env (TableName name None)) (quoted env name)"
    using renders_seq [OF renders_skip renders_escape [of env name]] by simp
  show "renders (Format_TableName env (TableName name (Some q))) (quoted env q @ ''.'' @ quoted env name)"
    using renders_seq [OF renders_seq [OF renders_escape [of env q] d] renders_escape [of env name]]
    by simp
qed

lemma renders_Format_ColName:
  "renders (Format_ColName env (ColName name None)) (quoted env name)"
  "renders (Format_ColName env (ColName name (Some q))) (quoted env q @ ''.'' @ quoted env name)"
proof -
  have d: "renders (Fprintf [Lit ''.'']) (''.'' @ [])"
    by (intro renders_Fprintf)
  show "renders (Format_ColName env (ColName name None)) (quoted env name)"
    using renders_seq [OF renders_skip renders_escape [of env name]] by simp
  show "renders (Format_ColName env (ColName name (Some q))) (quoted env q @ ''.'' @ quoted env name)"
    using renders_seq [OF renders_seq [OF renders_escape [of env q] d] renders_escape [of env name]]
    by simp
qed




lemmas run_defs =
  String_def seq_def andThen_def skip_def escape_def env0_def WriteString_def WriteArg_def
  NewTrackedBuffer_def isLetter_def isDigit_def



text \<open>
  C10. A \<open>StarExpr\<close> with a table name writes the name as it is and then \<open>.*\<close>, whatever
  the name: also a name that \<open>TableName\<close> and \<open>ColName\<close> write between backticks,
  because it is a keyword or has a byte outside the class.
\<close>

theorem StarExpr_bare:
  "renders (Format_SelectExpr env (StarExpr (Some t))) (t @ ''.*'') \<and>
   (\<forall>b. \<exists>b'. Format_SelectExpr env (StarExpr (Some t)) b = Inr b' \<and> bindVars b' = bindVars b) \<and>
   (t \<in> keywords_table env \<or>
      (\<exists>ch\<in>set t. \<not> isLetter (of_char ch) \<and> \<not> isDigit (of_char ch)) \<longrightarrow>
    renders (Format_TableName env (TableName t None)) (''`'' @ t @ ''`'') \<and>
    renders (Format_ColName env (ColName t None)) (''`'' @ t @ ''`''))"
proof -
  have p: "renders (Fprintf [Str t, Lit ''.'']) (t @ ''.'' @ [])"
    and s: "renders (Fprintf [Lit ''*'']) (''*'' @ [])"
    by (intro renders_Fprintf)+
  from renders_seq [OF p s]
  have a: "renders (Format_SelectExpr env (StarExpr (Some t))) (t @ ''.*'')" by simp
  have b: "\<forall>b. \<exists>b'. Format_SelectExpr env (StarExpr (Some t)) b = Inr b' \<and> bindVars b' = bindVars b"
    by (simp add: seq_def andThen_def WriteString_def)
  have c: "t \<in> keywords_table env \<or>
      (\<exists>ch\<in>set t. \<not> isLetter (of_char ch) \<and> \<not> isDigit (of_char ch)) \<longrightarrow>
    renders (Format_TableName env (TableName t None)) (''`'' @ t @ ''`'') \<and>
    renders (Format_ColName env (ColName t None)) (''`'' @ t @ ''`'')"
  proof
    assume "t \<in> keywords_table env \<or>
      (\<exists>ch\<in>set t. \<not> isLetter (of_char ch) \<and> \<not> isDigit (of_char ch))"
    then have "quoted env t = ''`'' @ t @ ''`''" by (simp add: quoted_def)
    with renders_Format_TableName(1) [of env t] renders_Format_ColName(1) [of env t]
    show "renders (Format_TableName env (TableName t None)) (''`'' @ t @ ''`'') \<and>
      renders (Format_ColName env (ColName t None)) (''`'' @ t @ ''`'')"
      by (simp only: simp_thms)
  qed
  from a b c show ?thesis by (intro conjI)
qed

theorem StarExpr_bare_witness:
  "String (Format_SelectExpr env0 (StarExpr (Some ''order''))) = Inr ''order.*'' \<and>
   String (Format_SelectExpr env0 (StarExpr (Some ''my-col''))) = Inr ''my-col.*'' \<and>
   String (Format_TableName env0 (TableName ''order'' None)) = Inr ''`order`'' \<and>
   String (Format_ColName env0 (ColName ''my-col'' None)) = Inr ''`my-col`''"
proof -
  have k: "''order'' \<in> keywords_table env0 \<or>
      (\<exists>ch\<in>set ''order''. \<not> isLetter (of_char ch) \<and> \<not> isDigit (of_char ch))"
    and m: "''my-col'' \<in> keywords_table env0 \<or>
      (\<exists>ch\<in>set ''my-col''. \<not> isLetter (of_char ch) \<and> \<not> isDigit (of_char ch))"
    by (simp_all add: env0_def isLetter_def isDigit_def)
  from StarExpr_bare [of env0 "''order''"] k
  have a: "renders (Format_SelectExpr env0 (StarExpr (Some ''order''))) (''order'' @ ''.*'')"
    and b: "renders (Format_TableName env0 (TableName ''order'' None)) (''`'' @ ''order'' @ ''`'')"
    by blast+
  from StarExpr_bare [of env0 "''my-col''"] m
  have c: "renders (Format_SelectExpr env0 (StarExpr (Some ''my-col''))) (''my-col'' @ ''.*'')"
    and d: "renders (Format_ColName env0 (ColName ''my-col'' None)) (''`'' @ ''my-col'' @ ''`'')"
    by blast+
  from renders_String [OF a] renders_String [OF b] renders_String [OF c] renders_String [OF d]
  show ?thesis by simp
qed

lemma WriteString_WriteString: "WriteString t (WriteString s b) = WriteString (s @ t) b"
  by (simp add: WriteString_def)

lemma andThen_Fprintf_Nil: "andThen r (Fprintf []) = r"
  by (cases r) (simp_all add: andThen_def)

text \<open>
  C5. \<open>NewWhere\<close> returns \<open>nil\<close> for a \<open>nil\<close> expression and otherwise a \<open>Where\<close> of
  the type and the expression given. A \<open>nil\<close> \<open>Where\<close>, \<open>Limit\<close> or \<open>OnDup\<close> renders
  nothing: the buffer is returned as it was. A node that is present writes its prefix,
  which starts with a space, before its content.
\<close>

theorem absent_clauses:
  "NewWhere typ None = None \<and>
   NewWhere typ (Some e) = Some (Where typ e) \<and>
   Format_Where env None buf = Inr buf \<and>
   Format_Limit env None buf = Inr buf \<and>
   Format_OnDup env None buf = Inr buf \<and>
   Format_Where env (NewWhere typ None) buf = Inr buf \<and>
   Format_Where env (Some (Where AST_WHERE e)) buf =
     Format_Expr env e (WriteString '' where '' buf) \<and>
   Format_Limit env (Some \<lparr>Offset = None, Rowcount = Some e\<rparr>) buf =
     Format_Expr env e (WriteString '' limit '' buf) \<and>
   Format_OnDup env (Some exprs) buf =
     Format_UpdateExprs env exprs (WriteString '' on duplicate key update '' buf)"
  by (simp add: NewWhere_def Format_Limit_def Format_OnDup_def AST_WHERE_def seq_def skip_def
      andThen_def WriteString_WriteString andThen_Fprintf_Nil [unfolded andThen_def])

lemma ValArgs_loop:
  "\<forall>s\<in>set ss. s \<noteq> [] \<Longrightarrow>
     \<exists>b'. ValExprs_loop env pre (map ValArg ss) b = Inr b' \<and>
       bindVars b' = bindVars b @ map tl ss \<and>
       out b' = out b @ (if ss = [] then [] else pre) @
                  join '', '' (map (\<lambda>s. argText env (tl s)) ss)"
proof (induction ss arbitrary: pre b)
  case Nil
  then show ?case by (simp add: skip_def)
next
  case (Cons s ss)
  from Cons.prems have s: "s \<noteq> []" and r: "\<forall>s\<in>set ss. s \<noteq> []" by simp_all
  define b1 where "b1 = WriteArg env (tl s) (WriteString pre b)"
  from Cons.IH [OF r, of "'', ''" b1] obtain b' where
    b': "ValExprs_loop env '', '' (map ValArg ss) b1 = Inr b'"
      "bindVars b' = bindVars b1 @ map tl ss"
      "out b' = out b1 @ (if ss = [] then [] else '', '') @
                  join '', '' (map (\<lambda>s. argText env (tl s)) ss)"
    by blast
  have "ValExprs_loop env pre (map ValArg (s # ss)) b = ValExprs_loop env '', '' (map ValArg ss) b1"
    using s by (simp add: seq_def andThen_def b1_def)
  moreover have "bindVars b1 = bindVars b @ [tl s]" "out b1 = out b @ pre @ argText env (tl s)"
    by (simp_all add: b1_def WriteArg_def WriteString_def)
  ultimately show ?case using b'
    by (simp add: join_Cons)
qed

text \<open>
  C8. For a \<open>ValArg\<close> holding a marker byte \<open>c\<close> and then the name \<open>rest\<close>, \<open>Format\<close> hands
  the name without the marker to \<open>WriteArg\<close>: the name joins the bind variables, the output
  receives the sink's text for the name, and the marker byte has no influence on either.
  This is not the literal splice that a \<open>NumVal\<close> of the same text gets, which leaves the
  bind variables as they were. A tuple of \<open>ValArg\<close>s records their names in their order.
\<close>

theorem ValArg_Format:
  "(\<exists>buf'. Format_Expr env (ValArg (c # rest)) buf = Inr buf' \<and>
      bindVars buf' = bindVars buf @ [rest] \<and>
      out buf' = out buf @ argText env rest) \<and>
   Format_Expr env (ValArg (c # rest)) buf = Format_Expr env (ValArg (d # rest)) buf \<and>
   Format_Expr env (NumVal (c # rest)) buf = Inr (WriteString (c # rest) buf) \<and>
   Format_Expr env (ValArg (c # rest)) buf \<noteq> Inr (WriteString (c # rest) buf) \<and>
   ((\<forall>s\<in>set ss. s \<noteq> []) \<longrightarrow>
      (\<exists>buf'. Format_Expr env (ValTuple (map ValArg ss)) buf = Inr buf' \<and>
         bindVars buf' = bindVars buf @ map tl ss \<and>
         out buf' = out buf @ ''('' @ join '', '' (map (\<lambda>s. argText env (tl s)) ss) @ '')''))"
proof -
  have a: "\<exists>buf'. Format_Expr env (ValArg (c # rest)) buf = Inr buf' \<and>
      bindVars buf' = bindVars buf @ [rest] \<and> out buf' = out buf @ argText env rest"
    by (simp add: WriteArg_def)
  have b: "Format_Expr env (ValArg (c # rest)) buf = Format_Expr env (ValArg (d # rest)) buf"
    by simp
  have n: "Format_Expr env (NumVal (c # rest)) buf = Inr (WriteString (c # rest) buf)"
    by simp
  have "bindVars (WriteArg env rest buf) \<noteq> bindVars (WriteString (c # rest) buf)"
    by (simp add: WriteArg_def WriteString_def)
  then have "WriteArg env rest buf \<noteq> WriteString (c # rest) buf" by auto
  then have l: "Format_Expr env (ValArg (c # rest)) buf \<noteq> Inr (WriteString (c # rest) buf)"
    by simp
  have t: "(\<forall>s\<in>set ss. s \<noteq> []) \<longrightarrow>
      (\<exists>buf'. Format_Expr env (ValTuple (map ValArg ss)) buf = Inr buf' \<and>
         bindVars buf' = bindVars buf @ map tl ss \<and>
         out buf' = out buf @ ''('' @ join '', '' (map (\<lambda>s. argText env (tl s)) ss) @ '')'')"
  proof
    assume "\<forall>s\<in>set ss. s \<noteq> []"
    from ValArgs_loop [OF this, of env "[]" "WriteString ''('' buf"] obtain b' where
      b': "ValExprs_loop env [] (map ValArg ss) (WriteString ''('' buf) = Inr b'"
        "bindVars b' = bindVars (WriteString ''('' buf) @ map tl ss"
        "out b' = out (WriteString ''('' buf) @ (if ss = [] then [] else []) @
                  join '', '' (map (\<lambda>s. argText env (tl s)) ss)"
      by blast
    then show "\<exists>buf'. Format_Expr env (ValTuple (map ValArg ss)) buf = Inr buf' \<and>
         bindVars buf' = bindVars buf @ map tl ss \<and>
         out buf' = out buf @ ''('' @ join '', '' (map (\<lambda>s. argText env (tl s)) ss) @ '')''"
      by (simp add: andThen_def WriteString_def)
  qed
  from a b n l t show ?thesis by (intro conjI)
qed

theorem ValArg_Format_witness:
  "Format_Expr env0 (ValArg '':id'') NewTrackedBuffer = Inr \<lparr>out = '':id'', bindVars = [''id'']\<rparr> \<and>
   Format_Expr env0 (NumVal '':id'') NewTrackedBuffer = Inr \<lparr>out = '':id'', bindVars = []\<rparr> \<and>
   Format_Expr env0 (ValTuple [ValArg '':a'', ValArg '':b'']) NewTrackedBuffer
     = Inr \<lparr>out = ''(:a, :b)'', bindVars = [''a'', ''b'']\<rparr>"
proof -
  note i = ValArg_Format [of env0 "CHR '':''" "''id''" NewTrackedBuffer "CHR '':''" "['':a'', '':b'']"]
  have h: "\<forall>s\<in>set ['':a'', '':b'']. s \<noteq> []" by simp
  from i h obtain b1 b2 where
    b1: "Format_Expr env0 (ValArg '':id'') NewTrackedBuffer = Inr b1"
      "bindVars b1 = bindVars NewTrackedBuffer @ [''id'']"
      "out b1 = out NewTrackedBuffer @ argText env0 ''id''"
    and n: "Format_Expr env0 (NumVal '':id'') NewTrackedBuffer = Inr (WriteString '':id'' NewTrackedBuffer)"
    and b2: "Format_Expr env0 (ValTuple (map ValArg ['':a'', '':b''])) NewTrackedBuffer = Inr b2"
      "bindVars b2 = bindVars NewTrackedBuffer @ map tl ['':a'', '':b'']"
      "out b2 = out NewTrackedBuffer @ ''('' @
         join '', '' (map (\<lambda>s. argText env0 (tl s)) ['':a'', '':b'']) @ '')''"
    by blast
  from b1(2,3) have "b1 = \<lparr>out = '':id'', bindVars = [''id'']\<rparr>"
    by (cases b1) (simp add: NewTrackedBuffer_def env0_def)
  moreover from b2(2,3) have "b2 = \<lparr>out = ''(:a, :b)'', bindVars = [''a'', ''b'']\<rparr>"
    by (cases b2) (simp add: NewTrackedBuffer_def env0_def)
  moreover have "WriteString '':id'' NewTrackedBuffer = \<lparr>out = '':id'', bindVars = []\<rparr>"
    by (simp add: WriteString_def NewTrackedBuffer_def)
  ultimately show ?thesis using b1(1) n b2(1) by simp
qed

lemma appendOnly_env0: "appendOnly (SelectFormat env0 s)"
  by (simp add: env0_def appendOnly_def)

lemma never_panics_env0: "never_panics (SelectFormat env0 s)"
  by (simp add: env0_def never_panics_def)

theorem list_separators_witness:
  "String (Format_SelectExprs env0
     [NonStarExpr (ColNameExpr (ColName ''a'' None)) None,
      NonStarExpr (ColNameExpr (ColName ''b'' None)) None,
      NonStarExpr (ColNameExpr (ColName ''c'' None)) None]) = Inr ''a, b, c'' \<and>
   String (Format_GroupBy env0 [NumVal ''1'', NumVal ''2'']) = Inr '' group by 1, 2'' \<and>
   String (Format_SpaceSplitExprs
     [SpaceSplitExpr ''charset'' ''utf8'', SpaceSplitExpr ''engine'' ''innodb''])
     = Inr ''charset utf8 engine innodb''"
proof -
  let ?ses = "[NonStarExpr (ColNameExpr (ColName ''a'' None)) None,
      NonStarExpr (ColNameExpr (ColName ''b'' None)) None,
      NonStarExpr (ColNameExpr (ColName ''c'' None)) None]"
  let ?gs = "[NumVal ''1'', NumVal ''2'']"
  let ?ss = "[SpaceSplitExpr ''charset'' ''utf8'', SpaceSplitExpr ''engine'' ''innodb'']"
  note i = list_separators [where env = env0 and selectExprs = ?ses
      and selectTexts = "[''a'', ''b'', ''c'']" and groupBy = ?gs and groupTexts = "[''1'', ''2'']"
      and spaceSplitExprs = ?ss and splitTexts = "[''charset utf8'', ''engine innodb'']",
      OF appendOnly_env0]
  have p1: "list_all2 (\<lambda>x t. String (Format_SelectExpr env0 x) = Inr t) ?ses [''a'', ''b'', ''c'']"
    and p2: "list_all2 (\<lambda>x t. String (Format_Expr env0 x) = Inr t) ?gs [''1'', ''2'']"
    and p3: "list_all2 (\<lambda>x t. String (Format_SpaceSplitExpr x) = Inr t) ?ss
          [''charset utf8'', ''engine innodb'']"
    by (simp_all add: run_defs)
  have "list_all2 (\<lambda>x t. String (Format_SelectExpr env0 x) = Inr t) ?ses [''a'', ''b'', ''c''] \<longrightarrow>
      renders (Format_SelectExprs env0 ?ses) (join '', '' [''a'', ''b'', ''c''])"
    by (rule i [THEN conjunct1])
  with p1 have r1: "renders (Format_SelectExprs env0 ?ses) (join '', '' [''a'', ''b'', ''c''])"
    by (rule rev_mp)
  have "list_all2 (\<lambda>x t. String (Format_Expr env0 x) = Inr t) ?gs [''1'', ''2''] \<longrightarrow>
      renders (Format_GroupBy env0 ?gs)
        ((if ?gs = [] then [] else '' group by '') @ join '', '' [''1'', ''2''])"
    by (rule i [THEN conjunct2, THEN conjunct2, THEN conjunct2, THEN conjunct1])
  with p2 have r2: "renders (Format_GroupBy env0 ?gs)
        ((if ?gs = [] then [] else '' group by '') @ join '', '' [''1'', ''2''])"
    by (rule rev_mp)
  have "list_all2 (\<lambda>x t. String (Format_SpaceSplitExpr x) = Inr t) ?ss
          [''charset utf8'', ''engine innodb''] \<longrightarrow>
      renders (Format_SpaceSplitExprs ?ss) (join '' '' [''charset utf8'', ''engine innodb''])"
    by (rule i [THEN conjunct2, THEN conjunct2, THEN conjunct2, THEN conjunct2,
          THEN conjunct2, THEN conjunct2, THEN conjunct1])
  with p3 have r3: "renders (Format_SpaceSplitExprs ?ss)
      (join '' '' [''charset utf8'', ''engine innodb''])"
    by (rule rev_mp)
  from renders_String [OF r1] renders_String [OF r2] renders_String [OF r3]
  show ?thesis by simp
qed

theorem CaseExpr_Format_witness:
  "String (Format_Expr env0
     (CaseExpr (Some (ColNameExpr (ColName ''x'' None)))
        [When (NumVal ''3'') (NumVal ''30''), When (NumVal ''1'') (NumVal ''10''),
         When (NumVal ''2'') (NumVal ''20'')]
        (Some NullVal)))
     = Inr ''case x when 3 then 30 when 1 then 10 when 2 then 20 else null end''"
proof -
  let ?ws = "[When (NumVal ''3'') (NumVal ''30''), When (NumVal ''1'') (NumVal ''10''),
         When (NumVal ''2'') (NumVal ''20'')]"
  let ?ts = "[''when 3 then 30'', ''when 1 then 10'', ''when 2 then 20'']"
  have h: "rel_option (\<lambda>x t. String (Format_Expr env0 x) = Inr t)
        (Some (ColNameExpr (ColName ''x'' None))) (Some ''x'') \<and>
      list_all2 (\<lambda>w t. String (Format_When env0 w) = Inr t) ?ws ?ts \<and>
      rel_option (\<lambda>x t. String (Format_Expr env0 x) = Inr t) (Some NullVal) (Some ''null'')"
    by (simp add: run_defs)
  have "rel_option (\<lambda>x t. String (Format_Expr env0 x) = Inr t)
        (Some (ColNameExpr (ColName ''x'' None))) (Some ''x'') \<and>
      list_all2 (\<lambda>w t. String (Format_When env0 w) = Inr t) ?ws ?ts \<and>
      rel_option (\<lambda>x t. String (Format_Expr env0 x) = Inr t) (Some NullVal) (Some ''null'') \<longrightarrow>
      renders (Format_Expr env0 (CaseExpr (Some (ColNameExpr (ColName ''x'' None))) ?ws (Some NullVal)))
        (''case '' @ (case Some ''x'' of None \<Rightarrow> [] | Some t \<Rightarrow> t @ '' '') @
         concat (map (\<lambda>t. t @ '' '') ?ts) @
         (case Some ''null'' of None \<Rightarrow> [] | Some t \<Rightarrow> ''else '' @ t @ '' '') @ ''end'')"
    by (rule CaseExpr_Format [where env = env0
          and expr = "Some (ColNameExpr (ColName ''x'' None))"
          and te = "Some ''x''" and whens = ?ws and tws = ?ts and els = "Some NullVal"
          and tel = "Some ''null''", OF appendOnly_env0, THEN conjunct1])
  with h have "renders (Format_Expr env0 (CaseExpr (Some (ColNameExpr (ColName ''x'' None))) ?ws (Some NullVal)))
        (''case '' @ (case Some ''x'' of None \<Rightarrow> [] | Some t \<Rightarrow> t @ '' '') @
         concat (map (\<lambda>t. t @ '' '') ?ts) @
         (case Some ''null'' of None \<Rightarrow> [] | Some t \<Rightarrow> ''else '' @ t @ '' '') @ ''end'')"
    by (rule rev_mp)
  from renders_String [OF this] show ?thesis by simp
qed

theorem Format_total_witness:
  "never_panics (Format_Expr env0
     (AndExpr (ComparisonExpr ''='' (ColNameExpr (ColName ''id'' None)) (ValArg '':id''))
        (NullCheck ''is null'' (ColNameExpr (ColName ''name'' (Some ''t'')))))) \<and>
   never_panics (Format_Limit env0
     (Some \<lparr>Offset = Some (NumVal ''10''), Rowcount = Some (NumVal ''20'')\<rparr>)) \<and>
   String (Format_Expr env0
     (AndExpr (ComparisonExpr ''='' (ColNameExpr (ColName ''id'' None)) (ValArg '':id''))
        (NullCheck ''is null'' (ColNameExpr (ColName ''name'' (Some ''t''))))))
     = Inr ''id = :id and t.name is null''"
proof -
  let ?e = "AndExpr (ComparisonExpr ''='' (ColNameExpr (ColName ''id'' None)) (ValArg '':id''))
        (NullCheck ''is null'' (ColNameExpr (ColName ''name'' (Some ''t''))))"
  let ?l = "Some \<lparr>Offset = Some (NumVal ''10''), Rowcount = Some (NumVal ''20'')\<rparr>"
  note i = Format_total [where ok = "\<lambda>_. True" and env = env0 and e = ?e and limit = ?l,
      OF never_panics_env0]
  have v: "valid_Expr (\<lambda>_. True) ?e" "valid_Limit (\<lambda>_. True) ?l"
    by (simp_all add: valid_Limit_def)
  have "valid_Expr (\<lambda>_. True) ?e \<longrightarrow> never_panics (Format_Expr env0 ?e)"
    by (rule i [THEN conjunct1])
  with v(1) have a: "never_panics (Format_Expr env0 ?e)" by (rule rev_mp)
  have "valid_Limit (\<lambda>_. True) ?l \<longrightarrow> never_panics (Format_Limit env0 ?l)"
    by (rule i [THEN conjunct2, THEN conjunct1])
  with v(2) have b: "never_panics (Format_Limit env0 ?l)" by (rule rev_mp)
  have c: "String (Format_Expr env0 ?e) = Inr ''id = :id and t.name is null''"
    by (simp add: run_defs)
  from a b c show ?thesis by (intro conjI)
qed

end
